theory Spec2Isabelle
  imports Main "HOL-Library.AList" "HOL-Library.Sublist"
begin

section \<open>Values and errors\<close>

text \<open>
  Values as JavaScript has them at run time: what \<open>JSON.parse\<close> and \<open>response.json()\<close>
  deliver, plus \<open>undefined\<close> and \<open>bigint\<close>, which the row decoder produces.  Numbers are
  carried as integers; no definition below computes with them.  An object is the list of
  its own properties in the order in which JavaScript enumerates them.
\<close>

datatype jsval =
    JUndefined
  | JNull
  | JBool bool
  | JNum int
  | JBigInt int
  | JStr string
  | JArr "jsval list"
  | JObj "(string \<times> jsval) list"

text \<open>
  The errors that travel through \<open>fetch\<close> and \<open>live\<close>: the two classes declared in
  \<open>IndexSupply.ts\<close>, \<open>Errors.BaseError\<close>, and any other thrown value (a \<open>DOMException\<close>
  named \<open>AbortError\<close>, a \<open>TypeError\<close> of the network layer, a \<open>SyntaxError\<close>, a validation
  error), kept as name and message.  \<open>SseError\<close> keeps \<open>message\<close> and \<open>type\<close> as the values
  the constructor was given; \<open>FetchRequestError\<close> keeps \<open>message\<close> and \<open>status\<close>.
\<close>

datatype error =
    SseError jsval jsval
  | FetchRequestError jsval int
  | BaseError string
  | OtherError string string

abbreviation AbortError :: error where
  "AbortError \<equiv> OtherError ''AbortError'' ''The operation was aborted''"

text \<open>\<open>shouldRetry\<close> (IndexSupply.ts, lines 479-487), with its two tests in source order.\<close>

fun shouldRetry :: "error \<Rightarrow> bool" where
  "shouldRetry error =
     (if (case error of SseError m t \<Rightarrow> t = JStr ''server'' | _ \<Rightarrow> False) then True
      else if (case error of
                 FetchRequestError m status \<Rightarrow> status = 408 \<or> status = 429 \<or> status \<ge> 500
               | _ \<Rightarrow> False) then True
      else False)"


section \<open>Platform functions\<close>

text \<open>
  What the code calls but does not define: \<open>String.prototype.trim\<close> and \<open>JSON.parse\<close>
  (\<open>Inl\<close> is the message of the \<open>SyntaxError\<close> it throws), \<open>AbiItem.from\<close> of the \<open>ox\<close>
  package, the \<open>parse\<close> method of a \<open>zod\<close> schema, and the two regular-expression searches
  of \<open>result.ts\<close>, whose matching is the engine's.  They are parameters of the model, so
  every theorem below holds whatever these functions compute.
\<close>

datatype abi_item =
    Named string "(string \<times> string) list"
  | Unnamed

text \<open>
  The schemas the code builds, one constructor for each \<open>zod\<close> expression that occurs:
  \<open>z.templateLiteral(['0x', z.string()])\<close>, \<open>z.boolean()\<close>, \<open>z.string()\<close>, \<open>z.number()\<close>,
  \<open>z.bigint()\<close>, \<open>z.array(s)\<close>, \<open>z.transform(value => Number(value))\<close>,
  \<open>z.transform(value => BigInt(value))\<close> and the transform of \<open>block_timestamp\<close>.
\<close>

datatype schema =
    TemplateLiteral_0x
  | Boolean
  | String
  | Number
  | Bigint
  | Array schema
  | Transform_Number
  | Transform_BigInt
  | Transform_timestamp

text \<open>
  A property read on a plain object also finds what the object inherits.  A value found
  that way is none of the schemas this code stored: it is the member \<open>n\<close> of
  \<open>Object.prototype\<close>, or the member \<open>n\<close> of a schema object, or a member of such a value.
  What the engine and the \<open>zod\<close> package make of the latter two is a parameter: whether
  the read throws, else whether the value is nullish, falsy or truthy
  (\<open>foreign_read\<close>), and what a call of its \<open>parse\<close> does (\<open>foreign_parse\<close>).
\<close>

datatype foreign =
    ProtoMember string
  | SchemaMember schema string
  | MemberOf foreign string

datatype truthiness =
    Nullish
  | Falsy
  | Truthy

text \<open>
  An assignment \<open>obj[k] = v\<close> to a name that is not an own property of \<open>obj\<close> consults the
  prototype.  When the prototype is a schema object, what its member \<open>k\<close> allows is a
  parameter as well (\<open>schema_assign\<close>): the assignment creates the own property, or
  throws (a read-only member, in strict code), or is taken by a setter and creates none.
\<close>

datatype assign =
    Creates
  | Throws error
  | Absorbed

record platform =
  trim :: "string \<Rightarrow> string"
  JSON_parse :: "string \<Rightarrow> string + jsval"
  AbiItem_from :: "string \<Rightarrow> error + abi_item"
  zod_parse :: "schema \<Rightarrow> jsval \<Rightarrow> error + jsval"
  extractTableName :: "string \<Rightarrow> string option"
  getColumnTableName :: "string \<Rightarrow> string \<Rightarrow> error + string option"
  foreign_read :: "foreign \<Rightarrow> error + truthiness"
  foreign_parse :: "foreign \<Rightarrow> jsval \<Rightarrow> error + jsval"
  schema_assign :: "schema \<Rightarrow> string \<Rightarrow> assign"

section \<open>Options and requests\<close>

datatype cursor =
    CursorString string
  | CursorObject int int

record options =
  cursor :: "cursor option"
  signatures :: "string list option"
  query :: string
  retryCount :: "int option"

text \<open>Decimal printing of an integer, for the template literal of a cursor object.\<close>

function show_nat :: "nat \<Rightarrow> string" where
  "show_nat n =
     (if n < 10 then [char_of (48 + n)]
      else show_nat (n div 10) @ [char_of (48 + n mod 10)])"
  by pat_completeness auto
termination
  by (relation "measure id") auto

definition show_int :: "int \<Rightarrow> string" where
  "show_int i = (if i < 0 then CHR ''-'' # show_nat (nat (- i)) else show_nat (nat i))"

text \<open>
  \<open>typeof cursor === 'string' ? cursor : `${cursor.chainId}-${cursor.blockNumber.toString()}`\<close>,
  the expression both operations use.
\<close>

fun cursor_string :: "cursor \<Rightarrow> string" where
  "cursor_string (CursorString s) = s"
| "cursor_string (CursorObject chainId blockNumber) =
     show_int chainId @ ''-'' @ show_int blockNumber"

text \<open>Truthiness of a cursor in \<open>if (cursor)\<close>: the empty string is falsy, an object is not.\<close>

fun truthy_cursor :: "cursor option \<Rightarrow> bool" where
  "truthy_cursor None = False"
| "truthy_cursor (Some (CursorString s)) = (s \<noteq> [])"
| "truthy_cursor (Some (CursorObject chainId blockNumber)) = True"

text \<open>
  \<open>requestBody\<close> of \<open>fetch\<close> (lines 171-175): an object with \<open>query\<close>, to which \<open>cursor\<close>
  and \<open>signatures\<close> are added when they are not \<open>undefined\<close>.
\<close>

definition requestBody :: "options \<Rightarrow> (string \<times> jsval) list" where
  "requestBody opts =
     (let body = [(''query'', JStr (query opts))];
          body = (case cursor opts of
                    None \<Rightarrow> body
                  | Some c \<Rightarrow> AList.update ''cursor'' (JStr (cursor_string c)) body)
      in (case signatures opts of
            None \<Rightarrow> body
          | Some sigs \<Rightarrow> AList.update ''signatures'' (JArr (map JStr sigs)) body))"

text \<open>
  The \<open>URLSearchParams\<close> of \<open>live\<close> (lines 254-263), as the list of its pairs in order.
  \<open>set\<close> replaces the value of a name that is present and appends otherwise (no name is
  present twice when \<open>set\<close> is called here); \<open>append\<close> adds at the end.
\<close>

definition params_set :: "string \<Rightarrow> string \<Rightarrow> (string \<times> string) list \<Rightarrow> (string \<times> string) list" where
  "params_set k v params = AList.update k v params"

definition params_append :: "string \<Rightarrow> string \<Rightarrow> (string \<times> string) list \<Rightarrow> (string \<times> string) list" where
  "params_append k v params = params @ [(k, v)]"

definition searchParams :: "options \<Rightarrow> (string \<times> string) list" where
  "searchParams opts =
     (let params = [];
          params = (if truthy_cursor (cursor opts)
                    then (case cursor opts of
                            None \<Rightarrow> params
                          | Some c \<Rightarrow> params_set ''cursor'' (cursor_string c) params)
                    else params);
          params = (case signatures opts of
                      None \<Rightarrow> params
                    | Some sigs \<Rightarrow> foldl (\<lambda>ps sig. params_append ''signatures'' sig ps) params sigs)
      in params_set ''query'' (query opts) params)"

datatype request =
    Post "(string \<times> jsval) list"
  | Get "(string \<times> string) list"

text \<open>
  What an observer of one call sees, in order: the events given to \<open>emit\<close>, the values
  yielded to the consumer, and the backoff sleeps with their delay in milliseconds.
\<close>

datatype obs =
    EmitRequest request
  | EmitResponse
  | EmitError error
  | Yield jsval
  | Sleep nat

text \<open>
  How a call ends.  \<open>Pending\<close> is not an end: the script of network answers given to the
  model has run out while the loop would open another connection.
\<close>

datatype 'a outcome =
    Returned 'a
  | Threw error
  | Pending

text \<open>
  \<open>Math.min(200 * 2 ** (count - 1), 30_000)\<close>.  \<open>count\<close> is 0 here when \<open>live\<close> has just
  reset it, and \<open>200 * 2 ** -1\<close> is 100.
\<close>

definition backoff :: "nat \<Rightarrow> nat" where
  "backoff count = min (if count = 0 then 100 else 200 * 2 ^ (count - 1)) 30000"

section \<open>The event-stream decoder\<close>

text \<open>
  Text is modelled by its UTF-8 bytes, and \<open>decoder.decode(value, {stream: true})\<close> by the
  bytes of the chunk: the streaming decoder holds back only an unfinished multi-byte
  sequence, whose bytes are not ASCII, and every search below is for ASCII text.  A
  byte-order mark at the very start of a stream, which the decoder removes, is not
  modelled.
\<close>

abbreviation LF :: char where
  "LF \<equiv> CHR 0x0A"

text \<open>\<open>buffer.indexOf('\n\n')\<close>; \<open>None\<close> is \<open>-1\<close>.\<close>

fun indexOf_sep :: "string \<Rightarrow> nat option" where
  "indexOf_sep [] = None"
| "indexOf_sep [c] = None"
| "indexOf_sep (c # d # cs) =
     (if c = LF \<and> d = LF then Some 0 else map_option Suc (indexOf_sep (d # cs)))"

text \<open>\<open>block.split('\n')\<close>.\<close>

fun split_lines :: "string \<Rightarrow> string list" where
  "split_lines [] = [[]]"
| "split_lines (c # cs) =
     (if c = LF then [] # split_lines cs
      else (case split_lines cs of [] \<Rightarrow> [[c]] | l # ls \<Rightarrow> (c # l) # ls))"

text \<open>
  A generator is modelled by what it yields, in order, and how it ends: \<open>None\<close> when it
  returns, \<open>Some e\<close> when it throws \<open>e\<close>.

  The \<open>for (const line of lines)\<close> loop of \<open>readStream\<close> (lines 457-468).
\<close>

fun readStream_lines :: "platform \<Rightarrow> string list \<Rightarrow> jsval list \<times> error option" where
  "readStream_lines P [] = ([], None)"
| "readStream_lines P (line # lines) =
     (if prefix ''data:'' line then
        (case JSON_parse P (trim P (drop 5 line)) of
           Inl message \<Rightarrow> ([], Some (SseError (JStr message) (JStr ''client'')))
         | Inr v \<Rightarrow> (case readStream_lines P lines of (ys, e) \<Rightarrow> (v # ys, e)))
      else readStream_lines P lines)"

text \<open>
  The \<open>while (idx !== -1)\<close> loop (lines 451-471): it returns what was yielded and either
  the error thrown or the buffer that is left.
\<close>

function readStream_blocks :: "platform \<Rightarrow> string \<Rightarrow> jsval list \<times> (error + string)" where
  "readStream_blocks P buffer =
     (case indexOf_sep buffer of
        None \<Rightarrow> ([], Inr buffer)
      | Some idx \<Rightarrow>
          (case readStream_lines P (split_lines (take idx buffer)) of
             (ys, Some e) \<Rightarrow> (ys, Inl e)
           | (ys, None) \<Rightarrow>
               (case readStream_blocks P (drop (idx + 2) buffer) of
                  (zs, r) \<Rightarrow> (ys @ zs, r))))"
  by pat_completeness auto
termination
proof (relation "measure (\<lambda>(P, buffer). length buffer)")
  show "wf (measure (\<lambda>(P, buffer). length buffer))"
    by simp
next
  fix P :: platform and buffer :: string and idx :: nat
  assume "indexOf_sep buffer = Some idx"
  then have "buffer \<noteq> []"
    by (cases buffer) simp_all
  then show "((P, drop (idx + 2) buffer), (P, buffer)) \<in> measure (\<lambda>(P, buffer). length buffer)"
    by simp
qed

text \<open>
  How the reader's stream ends: \<open>read()\<close> resolves with \<open>done\<close>, or rejects.
\<close>

datatype stream_end =
    Closed
  | Errored error

text \<open>
  The \<open>while (true)\<close> loop (lines 444-472) over the chunks that \<open>reader.read()\<close> delivers.
  The \<open>finally\<close> clause cancels the reader on every path and changes no result.
\<close>

fun readStream_loop :: "platform \<Rightarrow> string \<Rightarrow> string list \<Rightarrow> stream_end \<Rightarrow> jsval list \<times> error option" where
  "readStream_loop P buffer [] Closed = ([], None)"
| "readStream_loop P buffer [] (Errored e) = ([], Some e)"
| "readStream_loop P buffer (chunk # chunks) ending =
     (case readStream_blocks P (buffer @ chunk) of
        (ys, Inl e) \<Rightarrow> (ys, Some e)
      | (ys, Inr buffer') \<Rightarrow>
          (case readStream_loop P buffer' chunks ending of (zs, r) \<Rightarrow> (ys @ zs, r)))"

definition readStream :: "platform \<Rightarrow> string list \<Rightarrow> stream_end \<Rightarrow> jsval list \<times> error option" where
  "readStream P chunks ending = readStream_loop P [] chunks ending"

section \<open>The live operation\<close>

text \<open>
  What the network does at one connection attempt of \<open>live\<close>: \<open>fetch(request)\<close> rejects;
  or the response is not \<open>ok\<close>, with its status and the message read from its body; or it
  is \<open>ok\<close> with a null body; or it is \<open>ok\<close> with a body, given by the chunks its reader
  delivers and how the stream ends.
\<close>

datatype connection =
    Rejects error
  | NotOk int jsval
  | NullBody
  | Body "string list" stream_end

text \<open>
  One entry of the script a run of \<open>live\<close> is played against.  \<open>abort_in_try\<close>: the
  caller's signal fires, and the \<open>abort\<close> listener of line 241 runs, while the \<open>try\<close> block
  of this attempt is under way (awaiting \<open>fetch\<close> or a read, or suspended at a \<open>yield\<close>).
  \<open>abort_in_sleep\<close>: it fires during the backoff sleep that follows this attempt.
\<close>

record attempt =
  answer :: connection
  abort_in_try :: bool
  abort_in_sleep :: bool

definition live_retryCount :: "options \<Rightarrow> int" where
  "live_retryCount opts = (case retryCount opts of None \<Rightarrow> 50 | Some n \<Rightarrow> n)"

text \<open>
  Lines 307-308 on one decoded payload: \<open>Inl\<close> is what is thrown, \<open>Inr\<close> the items that are
  yielded.  \<open>'error' in data\<close> throws a \<open>TypeError\<close> on a primitive and is false on an
  array; an object without \<open>error\<close> is not iterable.
\<close>

definition property :: "(string \<times> jsval) list \<Rightarrow> string \<Rightarrow> jsval" where
  "property props k = (case map_of props k of None \<Rightarrow> JUndefined | Some v \<Rightarrow> v)"

fun live_data :: "jsval \<Rightarrow> error + jsval list" where
  "live_data (JArr items) = Inr items"
| "live_data (JObj props) =
     (if ''error'' \<in> set (map fst props)
      then Inl (SseError (property props ''message'') (property props ''error''))
      else Inl (OtherError ''TypeError'' ''data is not iterable''))"
| "live_data v = Inl (OtherError ''TypeError'' ''Cannot use 'in' operator'')"

text \<open>
  The body of \<open>for await (const data of readStream(reader))\<close> (lines 306-310) over the
  payloads the decoder yields, with \<open>count\<close> threaded through: what is yielded, the value
  of \<open>count\<close> afterwards, and the error thrown, if any.
\<close>

fun live_consume :: "nat \<Rightarrow> jsval list \<Rightarrow> obs list \<times> nat \<times> error option" where
  "live_consume count [] = ([], count, None)"
| "live_consume count (data # rest) =
     (case live_data data of
        Inl e \<Rightarrow> ([], count, Some e)
      | Inr items \<Rightarrow>
          (case live_consume 0 rest of (tr, count', r) \<Rightarrow> (map Yield items @ tr, count', r)))"

text \<open>
  The \<open>try\<close> block (lines 251-312) of one attempt: what is observed, the value of \<open>count\<close>
  when the block is left, and \<open>None\<close> when it is left by \<open>return\<close>, \<open>Some e\<close> when \<open>e\<close> is
  thrown.
\<close>

fun live_try :: "platform \<Rightarrow> options \<Rightarrow> nat \<Rightarrow> connection \<Rightarrow> obs list \<times> nat \<times> error option" where
  "live_try P opts count (Rejects e) =
     ([EmitRequest (Get (searchParams opts))], count, Some e)"
| "live_try P opts count (NotOk status message) =
     ([EmitRequest (Get (searchParams opts)), EmitResponse], count,
      Some (FetchRequestError message status))"
| "live_try P opts count NullBody =
     ([EmitRequest (Get (searchParams opts)), EmitResponse], count,
      Some (BaseError ''Response body is null''))"
| "live_try P opts count (Body chunks ending) =
     (case readStream P chunks ending of
        (datas, r) \<Rightarrow>
          (case live_consume count datas of
             (tr, count', Some e) \<Rightarrow>
               (EmitRequest (Get (searchParams opts)) # EmitResponse # tr, count', Some e)
           | (tr, count', None) \<Rightarrow>
               (EmitRequest (Get (searchParams opts)) # EmitResponse # tr, count', r)))"

definition last_or_maximum :: "error option \<Rightarrow> error" where
  "last_or_maximum lastError =
     (case lastError of None \<Rightarrow> BaseError ''Maximum retry attempts reached'' | Some e \<Rightarrow> e)"

text \<open>
  The \<open>while (count < retryCount)\<close> loop of \<open>live\<close> (lines 248-332) with its \<open>catch\<close>
  block, over the state \<open>count\<close>, \<open>lastError\<close>, \<open>shouldAbort\<close>.  The consumer takes every
  value that is yielded.
\<close>

fun live_loop ::
  "platform \<Rightarrow> options \<Rightarrow> nat \<Rightarrow> error option \<Rightarrow> bool \<Rightarrow> attempt list \<Rightarrow> obs list \<times> unit outcome" where
  "live_loop P opts count lastError shouldAbort [] =
     (if int count < live_retryCount opts then ([], Pending)
      else ([], Threw (last_or_maximum lastError)))"
| "live_loop P opts count lastError shouldAbort (a # script) =
     (if int count < live_retryCount opts then
        (case live_try P opts (count + 1) (answer a) of
           (tr, count', None) \<Rightarrow> (tr, Returned ())
         | (tr, count', Some e) \<Rightarrow>
             (if shouldAbort \<or> abort_in_try a then (tr, Returned ())
              else if \<not> shouldRetry e then (tr @ [EmitError e], Threw e)
              else (case live_loop P opts count' (Some e)
                           (shouldAbort \<or> abort_in_try a \<or> abort_in_sleep a) script of
                      (tr', out) \<Rightarrow> (tr @ [EmitError e, Sleep (backoff count')] @ tr', out))))
      else ([], Threw (last_or_maximum lastError)))"

definition live :: "platform \<Rightarrow> options \<Rightarrow> attempt list \<Rightarrow> obs list \<times> unit outcome" where
  "live P opts script = live_loop P opts 0 None False script"

section \<open>Row decoding\<close>

datatype column = Column (column_name: string) (pgtype: string)

datatype raw = Raw (raw_columns: "column list") (raw_cursor: string) (raw_rows: "jsval list list")

datatype result = Result (result_cursor: string) (result_rows: "(string \<times> jsval) list list")

text \<open>
  The own properties of the object \<open>standardColumnTypes\<close> (result.ts, lines 55-97).  What
  a read \<open>standardColumnTypes[name]\<close> finds is \<open>read_standard\<close> below.
\<close>

definition standardColumnTypes :: "string \<Rightarrow> schema option" where
  "standardColumnTypes = map_of
     [(''address'', TemplateLiteral_0x),
      (''block_num'', Transform_BigInt),
      (''block_timestamp'', Transform_timestamp),
      (''chain'', Number),
      (''data'', TemplateLiteral_0x),
      (''extra_data'', TemplateLiteral_0x),
      (''from'', TemplateLiteral_0x),
      (''gas'', Transform_BigInt),
      (''gas_limit'', Bigint),
      (''gas_price'', Transform_BigInt),
      (''gas_used'', Bigint),
      (''hash'', TemplateLiteral_0x),
      (''idx'', Number),
      (''input'', TemplateLiteral_0x),
      (''log_idx'', Number),
      (''miner'', TemplateLiteral_0x),
      (''nonce'', Transform_BigInt),
      (''num'', Bigint),
      (''receipts_root'', TemplateLiteral_0x),
      (''size'', Number),
      (''state_root'', TemplateLiteral_0x),
      (''timestamp'', Number),
      (''to'', TemplateLiteral_0x),
      (''topics'', Array String),
      (''tx_hash'', TemplateLiteral_0x),
      (''type'', Number),
      (''value'', Transform_BigInt)]"

definition standardTables :: "string list" where
  "standardTables = [''txs'', ''logs'', ''blocks'']"

definition is_digit :: "char \<Rightarrow> bool" where
  "is_digit c = (48 \<le> (of_char c :: nat) \<and> (of_char c :: nat) \<le> 57)"

text \<open>
  \<open>type.match(/int(\d+)$/)?.[1]\<close>: at the leftmost position where \<open>int\<close> is followed by
  one or more digits that reach the end of the string, those digits.
\<close>

fun match_int_size :: "string \<Rightarrow> string option" where
  "match_int_size [] = None"
| "match_int_size (c # cs) =
     (if prefix ''int'' (c # cs) \<and> drop 3 (c # cs) \<noteq> [] \<and> list_all is_digit (drop 3 (c # cs))
      then Some (drop 3 (c # cs))
      else match_int_size cs)"

text \<open>\<open>Number(size)\<close> on a string of decimal digits.\<close>

definition Number_of_digits :: "string \<Rightarrow> nat" where
  "Number_of_digits ds = foldl (\<lambda>n c. 10 * n + (of_char c - 48)) 0 ds"

text \<open>The schema chosen for one input of a signature from its type (lines 136-154).\<close>

definition transform :: "string \<Rightarrow> schema" where
  "transform type =
     (if type = ''address'' then TemplateLiteral_0x
      else if type = ''bool'' then Boolean
      else if prefix ''bytes'' type then
        (if CHR ''['' \<in> set type then Array TemplateLiteral_0x else TemplateLiteral_0x)
      else if prefix ''int'' type \<or> prefix ''uint'' type then
        (let size = match_int_size type;
             inner = (if (case size of None \<Rightarrow> False | Some ds \<Rightarrow> Number_of_digits ds \<le> 48)
                      then Transform_Number else Transform_BigInt)
         in if CHR ''['' \<in> set type then Array inner else inner)
      else String)"

text \<open>
  The names of the properties of \<open>Object.prototype\<close>.  Every object literal of this code
  inherits them; each is a function, except \<open>__proto__\<close>, which reads as the prototype
  itself; none has a \<open>parse\<close> method.
\<close>

definition Object_prototype_names :: "string list" where
  "Object_prototype_names =
     [''constructor'', ''__defineGetter__'', ''__defineSetter__'', ''hasOwnProperty'',
      ''__lookupGetter__'', ''__lookupSetter__'', ''isPrototypeOf'', ''propertyIsEnumerable'',
      ''toString'', ''valueOf'', ''__proto__'', ''toLocaleString'']"

text \<open>What a property read in the type lookup finds: a schema, a foreign value, or nothing.\<close>

datatype looked =
    Entry schema
  | Foreign foreign
  | Nothing

text \<open>\<open>standardColumnTypes[name]\<close>.\<close>

definition read_standard :: "string \<Rightarrow> looked" where
  "read_standard col =
     (case standardColumnTypes col of
        Some s \<Rightarrow> Entry s
      | None \<Rightarrow> if col \<in> set Object_prototype_names then Foreign (ProtoMember col) else Nothing)"

text \<open>
  The object \<open>types\<close> of one signature: its own properties and, when an assignment to
  \<open>__proto__\<close> has replaced its prototype, the schema that is the prototype now.  The
  object \<open>signatureTypes\<close>: its own properties and, likewise, the \<open>types\<close> object that is its
  prototype now.
\<close>

datatype types_obj = Types (types_own: "string \<rightharpoonup> schema") (types_proto: "schema option")

datatype sigs_obj = Sigs (sigs_own: "string \<rightharpoonup> types_obj") (sigs_proto: "types_obj option")

text \<open>
  \<open>types[name] = transform\<close>.  The name \<open>__proto__\<close> creates no property: the assignment
  reaches the setter of \<open>Object.prototype\<close> and makes the schema the prototype.  A name
  that is an own property is overwritten.  Any other name becomes an own property,
  unless the prototype is a schema by now and its member of that name decides otherwise.
\<close>

definition types_set :: "platform \<Rightarrow> string \<Rightarrow> schema \<Rightarrow> types_obj \<Rightarrow> error + types_obj" where
  "types_set P k s T =
     (if k = ''__proto__'' then Inr (Types (types_own T) (Some s))
      else if types_own T k \<noteq> None then Inr (Types ((types_own T)(k \<mapsto> s)) (types_proto T))
      else (case types_proto T of
              None \<Rightarrow> Inr (Types ((types_own T)(k \<mapsto> s)) (types_proto T))
            | Some s0 \<Rightarrow>
                (case schema_assign P s0 k of
                   Creates \<Rightarrow> Inr (Types ((types_own T)(k \<mapsto> s)) (types_proto T))
                 | Throws e \<Rightarrow> Inl e
                 | Absorbed \<Rightarrow> Inr T)))"

text \<open>
  \<open>signatureTypes[name] = types\<close>, in the same way.  When the prototype of
  \<open>signatureTypes\<close> is a \<open>types\<close> object by now, a name that is an own property of that
  object is writable there, and any other name is looked for in the prototype of that
  object in turn.
\<close>

definition sigs_set :: "platform \<Rightarrow> string \<Rightarrow> types_obj \<Rightarrow> sigs_obj \<Rightarrow> error + sigs_obj" where
  "sigs_set P k T S =
     (if k = ''__proto__'' then Inr (Sigs (sigs_own S) (Some T))
      else if sigs_own S k \<noteq> None then Inr (Sigs ((sigs_own S)(k \<mapsto> T)) (sigs_proto S))
      else (case sigs_proto S of
              None \<Rightarrow> Inr (Sigs ((sigs_own S)(k \<mapsto> T)) (sigs_proto S))
            | Some T0 \<Rightarrow>
                (if types_own T0 k \<noteq> None then Inr (Sigs ((sigs_own S)(k \<mapsto> T)) (sigs_proto S))
                 else (case types_proto T0 of
                         None \<Rightarrow> Inr (Sigs ((sigs_own S)(k \<mapsto> T)) (sigs_proto S))
                       | Some s0 \<Rightarrow>
                           (case schema_assign P s0 k of
                              Creates \<Rightarrow> Inr (Sigs ((sigs_own S)(k \<mapsto> T)) (sigs_proto S))
                            | Throws e \<Rightarrow> Inl e
                            | Absorbed \<Rightarrow> Inr S)))))"

text \<open>
  The table \<open>types\<close> of one signature (lines 132-157), from the inputs that are left and
  the object built so far.  An input is its name and its type; a missing name is the
  empty name, and both are skipped by \<open>if (!input.name) continue\<close>.
\<close>

fun signature_types :: "platform \<Rightarrow> (string \<times> string) list \<Rightarrow> types_obj \<Rightarrow> error + types_obj" where
  "signature_types P [] types = Inr types"
| "signature_types P ((input_name, input_type) # inputs) types =
     (if input_name = [] then signature_types P inputs types
      else (case types_set P input_name (transform input_type) types of
              Inl e \<Rightarrow> Inl e
            | Inr types' \<Rightarrow> signature_types P inputs types'))"

text \<open>\<open>toLowerCase\<close> on the ASCII letters of an item's name.\<close>

definition toLowerCase :: "string \<Rightarrow> string" where
  "toLowerCase s =
     map (\<lambda>c. if 65 \<le> (of_char c :: nat) \<and> (of_char c :: nat) \<le> 90
               then char_of ((of_char c :: nat) + 32) else c) s"

text \<open>
  The loop over the signatures (lines 127-160); \<open>Inl\<close> when \<open>AbiItem.from\<close> or an
  assignment throws.
\<close>

fun signatureTypes :: "platform \<Rightarrow> string list \<Rightarrow> sigs_obj \<Rightarrow> error + sigs_obj" where
  "signatureTypes P [] acc = Inr acc"
| "signatureTypes P (signature # rest) acc =
     (case AbiItem_from P signature of
        Inl e \<Rightarrow> Inl e
      | Inr Unnamed \<Rightarrow> signatureTypes P rest acc
      | Inr (Named item_name inputs) \<Rightarrow>
          (case signature_types P inputs (Types Map.empty None) of
             Inl e \<Rightarrow> Inl e
           | Inr types \<Rightarrow>
               (case sigs_set P (toLowerCase item_name) types acc of
                  Inl e \<Rightarrow> Inl e
                | Inr acc' \<Rightarrow> signatureTypes P rest acc')))"

text \<open>\<open>types[name]\<close> on a \<open>types\<close> object.\<close>

definition read_types :: "types_obj \<Rightarrow> string \<Rightarrow> looked" where
  "read_types T col =
     (case types_own T col of
        Some s \<Rightarrow> Entry s
      | None \<Rightarrow>
          (case types_proto T of
             Some s \<Rightarrow> if col = ''__proto__'' then Entry s else Foreign (SchemaMember s col)
           | None \<Rightarrow>
               if col \<in> set Object_prototype_names then Foreign (ProtoMember col) else Nothing))"

text \<open>
  \<open>signatureTypes[tableName]?.[name]\<close>.  When \<open>signatureTypes[tableName]\<close> is not a table
  of this code but an inherited value, the result is a member of that value.
\<close>

definition read_signatureTypes :: "sigs_obj \<Rightarrow> string \<Rightarrow> string \<Rightarrow> looked" where
  "read_signatureTypes S tableName col =
     (case sigs_own S tableName of
        Some T \<Rightarrow> read_types T col
      | None \<Rightarrow>
          (case sigs_proto S of
             Some T \<Rightarrow>
               if tableName = ''__proto__'' then read_types T col
               else (case read_types T tableName of
                       Entry s \<Rightarrow> Foreign (SchemaMember s col)
                     | Foreign f \<Rightarrow> Foreign (MemberOf f col)
                     | Nothing \<Rightarrow> Nothing)
           | None \<Rightarrow>
               if tableName \<in> set Object_prototype_names
               then Foreign (MemberOf (ProtoMember tableName) col)
               else Nothing))"

text \<open>
  Reading a foreign value: whether the read throws, and else the truthiness of what is
  read.  A member of \<open>Object.prototype\<close> is a function or an object.
\<close>

definition read_foreign :: "platform \<Rightarrow> foreign \<Rightarrow> error + truthiness" where
  "read_foreign P f = (case f of ProtoMember n \<Rightarrow> Inr Truthy | _ \<Rightarrow> foreign_read P f)"

text \<open>
  \<open>type.parse(value)\<close> when \<open>type\<close> is a foreign value.  A member of \<open>Object.prototype\<close>
  has no \<open>parse\<close>, and the call throws a \<open>TypeError\<close>.
\<close>

definition parse_foreign :: "platform \<Rightarrow> foreign \<Rightarrow> jsval \<Rightarrow> error + jsval" where
  "parse_foreign P f v =
     (case f of
        ProtoMember n \<Rightarrow> Inl (OtherError ''TypeError'' ''type.parse is not a function'')
      | _ \<Rightarrow> foreign_parse P f v)"

text \<open>
  The value of \<open>type\<close> for a column of a table (lines 178-185); \<open>Inl\<close> when a read throws.
  \<open>??\<close> goes on to the fixed schema table when its left operand is nullish.
\<close>

definition column_type :: "platform \<Rightarrow> sigs_obj \<Rightarrow> string \<Rightarrow> string \<Rightarrow> error + looked" where
  "column_type P sigTypes tableName col =
     (if tableName \<in> set standardTables then Inr (read_standard col)
      else (case read_signatureTypes sigTypes tableName col of
              Entry s \<Rightarrow> Inr (Entry s)
            | Nothing \<Rightarrow> Inr (read_standard col)
            | Foreign f \<Rightarrow>
                (case read_foreign P f of
                   Inl e \<Rightarrow> Inl e
                 | Inr Nullish \<Rightarrow> Inr (read_standard col)
                 | Inr _ \<Rightarrow> Inr (Foreign f))))"

text \<open>
  The value stored for one cell (lines 173-189).  \<open>tableName\<close> is falsy when it is \<open>null\<close>
  or empty; \<open>type\<close> is falsy when nothing was found or a falsy foreign value was.
\<close>

definition cell_value ::
  "platform \<Rightarrow> sigs_obj \<Rightarrow> string option \<Rightarrow> string \<Rightarrow> jsval \<Rightarrow> error + jsval" where
  "cell_value P sigTypes tableName col v =
     (case tableName of
        None \<Rightarrow> Inr v
      | Some t \<Rightarrow>
          (if t = [] then Inr v
           else (case column_type P sigTypes t col of
                   Inl e \<Rightarrow> Inl e
                 | Inr Nothing \<Rightarrow> Inr v
                 | Inr (Entry type) \<Rightarrow> zod_parse P type v
                 | Inr (Foreign f) \<Rightarrow>
                     (case read_foreign P f of
                        Inl e \<Rightarrow> Inl e
                      | Inr Truthy \<Rightarrow> parse_foreign P f v
                      | Inr _ \<Rightarrow> Inr v))))"

text \<open>\<open>row_raw[j]\<close>: \<open>undefined\<close> beyond the end of the row.\<close>

definition at_index :: "jsval list \<Rightarrow> nat \<Rightarrow> jsval" where
  "at_index xs j = (if j < length xs then xs ! j else JUndefined)"

text \<open>
  A key is an array index when it is the canonical decimal form of an integer from 0 to
  \<open>2^32 - 2\<close>.  An object enumerates its array-index keys first, in ascending numeric
  order, and its other keys after them, in the order in which they were created.
\<close>

definition index_value :: "string \<Rightarrow> int" where
  "index_value k = foldl (\<lambda>n c. 10 * n + (int (of_char c) - 48)) 0 k"

definition is_array_index :: "string \<Rightarrow> bool" where
  "is_array_index k =
     (k \<noteq> [] \<and> list_all is_digit k \<and> (k = ''0'' \<or> hd k \<noteq> CHR ''0'')
      \<and> index_value k \<le> 4294967294)"

fun insert_index :: "string \<Rightarrow> jsval \<Rightarrow> (string \<times> jsval) list \<Rightarrow> (string \<times> jsval) list" where
  "insert_index k v [] = [(k, v)]"
| "insert_index k v ((k', v') # props) =
     (if is_array_index k' \<and> index_value k' < index_value k
      then (k', v') # insert_index k v props
      else (k, v) # (k', v') # props)"

text \<open>
  \<open>row[name] = value\<close> on the record under construction, given by its own properties in
  enumeration order and by whether an assignment to \<open>__proto__\<close> still reaches the setter
  of \<open>Object.prototype\<close>.  A key that is present keeps its place and takes the new value.
  The name \<open>__proto__\<close>, while the setter is reached, creates no property: an object or
  \<open>null\<close> becomes the prototype of the record, anything else is ignored; after \<open>null\<close>,
  or after an object that has \<open>__proto__\<close> as a key, the setter is reached no more and
  the name is a key like any other.  A new array-index key goes to its numeric place
  among the array-index keys; any other new key goes to the end.
\<close>

fun setter_after :: "jsval \<Rightarrow> bool" where
  "setter_after JNull = False"
| "setter_after (JObj props) = (''__proto__'' \<notin> set (map fst props))"
| "setter_after v = True"

definition row_set ::
  "string \<Rightarrow> jsval \<Rightarrow> (string \<times> jsval) list \<times> bool \<Rightarrow> (string \<times> jsval) list \<times> bool" where
  "row_set k v state =
     (case state of
        (row, setter) \<Rightarrow>
          if k \<in> set (map fst row) then (AList.update k v row, setter)
          else if k = ''__proto__'' \<and> setter then (row, setter_after v)
          else if is_array_index k then (insert_index k v row, setter)
          else (row @ [(k, v)], setter))"

text \<open>
  The loop over the columns (lines 165-192) for one row, from column \<open>j\<close> on; it returns
  the own properties of the record.
\<close>

fun parse_columns ::
  "platform \<Rightarrow> sigs_obj \<Rightarrow> string \<Rightarrow> string option \<Rightarrow> jsval list \<Rightarrow>
   nat \<Rightarrow> column list \<Rightarrow> (string \<times> jsval) list \<times> bool \<Rightarrow> error + (string \<times> jsval) list" where
  "parse_columns P sigTypes sql sourceTableName row_raw j [] row = Inr (fst row)"
| "parse_columns P sigTypes sql sourceTableName row_raw j (column # columns) row =
     (case getColumnTableName P (column_name column) sql of
        Inl e \<Rightarrow> Inl e
      | Inr found \<Rightarrow>
          (case cell_value P sigTypes
                  (case found of Some t \<Rightarrow> Some t | None \<Rightarrow> sourceTableName)
                  (column_name column) (at_index row_raw j) of
             Inl e \<Rightarrow> Inl e
           | Inr v \<Rightarrow>
               parse_columns P sigTypes sql sourceTableName row_raw (j + 1) columns
                 (row_set (column_name column) v row)))"

text \<open>The loop over the rows (lines 162-194); \<open>rows\<close> is the array built so far.\<close>

fun parse_rows ::
  "platform \<Rightarrow> sigs_obj \<Rightarrow> string \<Rightarrow> string option \<Rightarrow> column list \<Rightarrow>
   jsval list list \<Rightarrow> (string \<times> jsval) list list \<Rightarrow> error + (string \<times> jsval) list list" where
  "parse_rows P sigTypes sql sourceTableName columns [] rows = Inr rows"
| "parse_rows P sigTypes sql sourceTableName columns (row_raw # rest) rows =
     (case parse_columns P sigTypes sql sourceTableName row_raw 0 columns ([], True) of
        Inl e \<Rightarrow> Inl e
      | Inr row \<Rightarrow> parse_rows P sigTypes sql sourceTableName columns rest (rows @ [row]))"

text \<open>\<open>parse\<close> (result.ts, lines 118-200); \<open>Inl\<close> is the error it throws.\<close>

definition parse :: "platform \<Rightarrow> raw \<Rightarrow> string \<Rightarrow> string list option \<Rightarrow> error + result" where
  "parse P r sql sigs =
     (let sourceTableName = extractTableName P sql in
      case signatureTypes P (case sigs of None \<Rightarrow> [] | Some l \<Rightarrow> l) (Sigs Map.empty None) of
        Inl e \<Rightarrow> Inl e
      | Inr sigTypes \<Rightarrow>
          (case parse_rows P sigTypes sql sourceTableName (raw_columns r) (raw_rows r) [] of
             Inl e \<Rightarrow> Inl e
           | Inr rows \<Rightarrow> Inr (Result (raw_cursor r) rows)))"

section \<open>The fetch operation\<close>

text \<open>
  What the network does at one attempt of \<open>fetch\<close>: the request rejects; the response is
  not \<open>ok\<close>; \<open>response.json()\<close> rejects; or it delivers an array, of which the first
  element is taken (\<open>None\<close> when there is none).
\<close>

datatype exchange =
    FetchRejects error
  | FetchNotOk int jsval
  | JsonRejects error
  | Json "raw option"

definition fetch_retryCount :: "options \<Rightarrow> int" where
  "fetch_retryCount opts = (case retryCount opts of None \<Rightarrow> 5 | Some n \<Rightarrow> n)"

text \<open>The \<open>try\<close> block of \<open>fetch\<close> (lines 183-214): \<open>Inr\<close> is the value returned.\<close>

fun fetch_try :: "platform \<Rightarrow> options \<Rightarrow> exchange \<Rightarrow> obs list \<times> (error + result)" where
  "fetch_try P opts (FetchRejects e) = ([EmitRequest (Post (requestBody opts))], Inl e)"
| "fetch_try P opts (FetchNotOk status message) =
     ([EmitRequest (Post (requestBody opts)), EmitResponse], Inl (FetchRequestError message status))"
| "fetch_try P opts (JsonRejects e) =
     ([EmitRequest (Post (requestBody opts)), EmitResponse], Inl e)"
| "fetch_try P opts (Json None) =
     ([EmitRequest (Post (requestBody opts)), EmitResponse], Inl (BaseError ''No results returned''))"
| "fetch_try P opts (Json (Some r)) =
     ([EmitRequest (Post (requestBody opts)), EmitResponse], parse P r (query opts) (signatures opts))"

text \<open>The \<open>while (count < retryCount)\<close> loop of \<open>fetch\<close> (lines 180-232).\<close>

fun fetch_loop ::
  "platform \<Rightarrow> options \<Rightarrow> nat \<Rightarrow> error option \<Rightarrow> exchange list \<Rightarrow> obs list \<times> result outcome" where
  "fetch_loop P opts count lastError [] =
     (if int count < fetch_retryCount opts then ([], Pending)
      else ([], Threw (last_or_maximum lastError)))"
| "fetch_loop P opts count lastError (x # script) =
     (if int count < fetch_retryCount opts then
        (case fetch_try P opts x of
           (tr, Inr res) \<Rightarrow> (tr, Returned res)
         | (tr, Inl e) \<Rightarrow>
             (if \<not> shouldRetry e then (tr @ [EmitError e], Threw e)
              else (case fetch_loop P opts (count + 1) (Some e) script of
                      (tr', out) \<Rightarrow> (tr @ [EmitError e, Sleep (backoff (count + 1))] @ tr', out))))
      else ([], Threw (last_or_maximum lastError)))"

definition fetch :: "platform \<Rightarrow> options \<Rightarrow> exchange list \<Rightarrow> obs list \<times> result outcome" where
  "fetch P opts script = fetch_loop P opts 0 None script"

section \<open>Column names at their first occurrence\<close>

text \<open>
  The keys of a record that is filled by assignments, one per element of a list of names:
  each name once, at the place of its first occurrence.
\<close>

primrec first_occurrences :: "'a list \<Rightarrow> 'a list" where
  "first_occurrences [] = []"
| "first_occurrences (x # xs) = x # removeAll x (first_occurrences xs)"

section \<open>A sample platform\<close>

text \<open>
  The concrete runs below need concrete platform functions.  Each sample function gives,
  on the inputs it is applied to in this file, what the real function gives there, and
  is not meant beyond them.
\<close>

definition is_space :: "char \<Rightarrow> bool" where
  "is_space c = ((of_char c :: nat) \<in> {9, 10, 11, 12, 13, 32})"

definition sample_trim :: "string \<Rightarrow> string" where
  "sample_trim s = rev (dropWhile is_space (rev (dropWhile is_space s)))"

definition sample_JSON_parse :: "string \<Rightarrow> string + jsval" where
  \<open>sample_JSON_parse s =
     (if s = ''[]'' then Inr (JArr [])
      else if s = ''7'' then Inr (JNum 7)
      else if s = ''[{"cursor":"8453-2","rows":[]}]''
        then Inr (JArr [JObj [(''cursor'', JStr ''8453-2''), (''rows'', JArr [])]])
      else if s = ''{"error":"server","message":"restart"}''
        then Inr (JObj [(''error'', JStr ''server''), (''message'', JStr ''restart'')])
      else Inl ''Unexpected token'')\<close>

fun sample_zod_parse :: "schema \<Rightarrow> jsval \<Rightarrow> error + jsval" where
  "sample_zod_parse TemplateLiteral_0x (JStr s) =
     (if prefix ''0x'' s then Inr (JStr s) else Inl (OtherError ''ZodError'' ''Invalid input''))"
| "sample_zod_parse Transform_BigInt (JStr s) =
     (if s \<noteq> [] \<and> list_all is_digit s then Inr (JBigInt (int (Number_of_digits s)))
      else Inl (OtherError ''SyntaxError'' ''Cannot convert to a BigInt''))"
| "sample_zod_parse Transform_Number (JStr s) =
     (if s \<noteq> [] \<and> list_all is_digit s then Inr (JNum (int (Number_of_digits s)))
      else Inl (OtherError ''ZodError'' ''Invalid input''))"
| "sample_zod_parse t v = Inl (OtherError ''ZodError'' ''Invalid input'')"

definition sample_signature :: string where
  "sample_signature = ''event Transfer(address indexed from, address indexed to, uint256 value)''"

definition sample_AbiItem_from :: "string \<Rightarrow> error + abi_item" where
  "sample_AbiItem_from s =
     (if s = sample_signature
      then Inr (Named ''Transfer''
                  [(''from'', ''address''), (''to'', ''address''), (''value'', ''uint256'')])
      else Inl (OtherError ''InvalidSignatureError'' ''Invalid signature''))"

definition sample_query :: string where
  \<open>sample_query = ''select "from", value, note from transfer''\<close>

definition sample_extractTableName :: "string \<Rightarrow> string option" where
  "sample_extractTableName q = (if q = sample_query then Some ''transfer'' else None)"

definition sample_platform :: platform where
  "sample_platform = \<lparr> trim = sample_trim, JSON_parse = sample_JSON_parse,
     AbiItem_from = sample_AbiItem_from, zod_parse = sample_zod_parse,
     extractTableName = sample_extractTableName, getColumnTableName = (\<lambda>col q. Inr None),
     foreign_read = (\<lambda>f. Inr Truthy),
     foreign_parse = (\<lambda>f v. Inl (OtherError ''TypeError'' ''type.parse is not a function'')),
     schema_assign = (\<lambda>s k. Creates) \<rparr>"

definition sample_options :: options where
  "sample_options = \<lparr> cursor = Some (CursorString ''8453-1''), signatures = Some [sample_signature],
     query = sample_query, retryCount = None \<rparr>"

definition sample_raw :: raw where
  "sample_raw =
     Raw [Column ''from'' ''bytea'', Column ''value'' ''numeric'', Column ''note'' ''text'']
       ''8453-9''
       [[JStr ''0xab'', JStr ''12'', JStr ''first''], [JStr ''0xcd'', JStr ''7'', JNull]]"

definition sample_batch_frame :: string where
  \<open>sample_batch_frame = ''data: [{"cursor":"8453-2","rows":[]}]'' @ [LF, LF]\<close>

definition sample_server_error_frame :: string where
  \<open>sample_server_error_frame = ''data: {"error":"server","message":"restart"}'' @ [LF, LF]\<close>

definition sample_request :: obs where
  "sample_request = EmitRequest (Get [(''cursor'', ''8453-1''), (''signatures'', sample_signature),
     (''query'', sample_query)])"

lemmas sample_defs = sample_platform_def sample_trim_def is_space_def sample_JSON_parse_def
  sample_signature_def sample_AbiItem_from_def sample_query_def sample_extractTableName_def
  sample_raw_def sample_options_def sample_batch_frame_def sample_server_error_frame_def
  sample_request_def

lemmas run_defs = live_def live_retryCount_def fetch_def fetch_retryCount_def readStream_def
  readStream_blocks.simps searchParams_def requestBody_def params_set_def params_append_def
  property_def backoff_def last_or_maximum_def

declare readStream_blocks.simps [simp del]

section \<open>Retry policy\<close>

text \<open>
  C2, as stated: \<open>shouldRetry\<close> holds if and only if the error is a stream error of type
  \<open>server\<close> or a request error whose status is 408, 429 or within 500..599.  The code
  tests \<open>status >= 500\<close> with no upper bound, so a request error with status 600 is
  retried although 600 is none of 408, 429 and 500..599.
\<close>

theorem shouldRetry_status_600_counterexample:
  "shouldRetry (FetchRequestError (JStr ''upstream'') 600)
   \<and> \<not> ((600::int) = 408 \<or> (600::int) = 429 \<or> (500 \<le> (600::int) \<and> (600::int) \<le> 599))"
  by simp

text \<open>
  C2, amended: \<open>shouldRetry\<close> holds if and only if the error is a stream error whose type
  is \<open>server\<close>, or a request error whose status is 408, 429 or at least 500.  Every other
  error is terminal: a stream error of any other type (the decoder's \<open>client\<close> errors
  among them), a \<open>BaseError\<close>, a cancellation, and any other thrown value.
\<close>

theorem shouldRetry_iff:
  "shouldRetry e \<longleftrightarrow>
     (\<exists>m. e = SseError m (JStr ''server''))
     \<or> (\<exists>m status. e = FetchRequestError m status
           \<and> (status = 408 \<or> status = 429 \<or> 500 \<le> status))"
  by (cases e) auto

theorem shouldRetry_iff_witness:
  "shouldRetry (FetchRequestError (JStr ''busy'') 429)
   \<and> shouldRetry (SseError (JStr ''restart'') (JStr ''server''))
   \<and> \<not> shouldRetry (SseError (JStr ''bad query'') (JStr ''client''))
   \<and> \<not> shouldRetry (FetchRequestError (JStr ''missing'') 404)
   \<and> \<not> shouldRetry AbortError"
  using shouldRetry_iff [of "FetchRequestError (JStr ''busy'') 429"]
    shouldRetry_iff [of "SseError (JStr ''restart'') (JStr ''server'')"]
    shouldRetry_iff [of "SseError (JStr ''bad query'') (JStr ''client'')"]
    shouldRetry_iff [of "FetchRequestError (JStr ''missing'') 404"]
    shouldRetry_iff [of AbortError]
  by simp

section \<open>The event-stream decoder: chunking\<close>

lemma indexOf_sep_append: "indexOf_sep s = Some i \<Longrightarrow> indexOf_sep (s @ t) = Some i"
proof (induction s arbitrary: i rule: indexOf_sep.induct)
  case 1
  then show ?case by simp
next
  case (2 c)
  then show ?case by simp
next
  case (3 c d cs)
  then show ?case by (cases "c = LF \<and> d = LF") auto
qed

lemma indexOf_sep_bound: "indexOf_sep s = Some i \<Longrightarrow> i + 2 \<le> length s"
  by (induction s arbitrary: i rule: indexOf_sep.induct) (auto split: if_splits)

lemma indexOf_sep_tl: "indexOf_sep (c # cs) = None \<Longrightarrow> indexOf_sep cs = None"
  by (cases cs) (auto split: if_splits)

lemma blocks_no_sep: "indexOf_sep s = None \<Longrightarrow> readStream_blocks P s = ([], Inr s)"
  by (simp add: readStream_blocks.simps)

lemma blocks_append:
  "readStream_blocks P (s @ t) =
     (case readStream_blocks P s of
        (ys, Inl e) \<Rightarrow> (ys, Inl e)
      | (ys, Inr r) \<Rightarrow> (case readStream_blocks P (r @ t) of (zs, x) \<Rightarrow> (ys @ zs, x)))"
proof (induction P s rule: readStream_blocks.induct)
  case (1 P buffer)
  show ?case
  proof (cases "indexOf_sep buffer")
    case None
    then show ?thesis by (simp add: blocks_no_sep split: prod.splits)
  next
    case (Some idx)
    have a: "indexOf_sep (buffer @ t) = Some idx"
      using Some by (rule indexOf_sep_append)
    have b: "idx + 2 \<le> length buffer"
      using Some by (rule indexOf_sep_bound)
    obtain ys e where l: "readStream_lines P (split_lines (take idx buffer)) = (ys, e)"
      by (cases "readStream_lines P (split_lines (take idx buffer))")
    show ?thesis
    proof (cases e)
      case None
      have ih: "readStream_blocks P (drop (idx + 2) buffer @ t) =
         (case readStream_blocks P (drop (idx + 2) buffer) of
            (ys, Inl e) \<Rightarrow> (ys, Inl e)
          | (ys, Inr r) \<Rightarrow> (case readStream_blocks P (r @ t) of (zs, x) \<Rightarrow> (ys @ zs, x)))"
        using "1.IH" [OF Some _ None] l by simp
      show ?thesis
        using Some a b l None ih
        by (subst (1 2) readStream_blocks.simps) (auto split: prod.splits sum.splits)
    next
      case (Some err)
      then show ?thesis
        using \<open>indexOf_sep buffer = Some idx\<close> a b l
        by (subst (1 2) readStream_blocks.simps) simp
    qed
  qed
qed


lemma blocks_rest_no_sep:
  "readStream_blocks P s = (ys, Inr r) \<Longrightarrow> indexOf_sep r = None"
proof (induction P s arbitrary: ys rule: readStream_blocks.induct)
  case (1 P buffer)
  show ?case
  proof (cases "indexOf_sep buffer")
    case None
    then show ?thesis using "1.prems" by (simp add: blocks_no_sep)
  next
    case (Some idx)
    then show ?thesis
      using "1.prems" "1.IH" [OF Some]
      by (subst (asm) readStream_blocks.simps) (auto split: prod.splits option.splits)
  qed
qed

lemma blocks_rest_suffix:
  "readStream_blocks P s = (ys, Inr r) \<Longrightarrow> suffix r s"
proof (induction P s arbitrary: ys rule: readStream_blocks.induct)
  case (1 P buffer)
  show ?case
  proof (cases "indexOf_sep buffer")
    case None
    then show ?thesis using "1.prems" by (simp add: blocks_no_sep)
  next
    case (Some idx)
    have "suffix r (drop (idx + 2) buffer)"
      using "1.prems" "1.IH" [OF Some] Some
      by (subst (asm) readStream_blocks.simps) (auto split: prod.splits option.splits)
    then show ?thesis
      using suffix_drop suffix_order.trans by blast
  qed
qed

lemma loop_concat:
  "indexOf_sep b = None \<Longrightarrow>
   readStream_loop P b chunks ending = readStream_loop P b [concat chunks] ending"
proof (induction chunks arbitrary: b)
  case Nil
  then show ?case
    by (cases ending) (simp_all add: blocks_no_sep)
next
  case (Cons chunk chunks)
  obtain ys x where bl: "readStream_blocks P (b @ chunk) = (ys, x)"
    by (cases "readStream_blocks P (b @ chunk)")
  show ?case
  proof (cases x)
    case (Inl e)
    then show ?thesis
      using bl blocks_append [of P "b @ chunk" "concat chunks"] by simp
  next
    case (Inr b')
    have "indexOf_sep b' = None"
      using bl Inr by (auto dest: blocks_rest_no_sep)
    then have "readStream_loop P b' chunks ending = readStream_loop P b' [concat chunks] ending"
      by (rule Cons.IH)
    then show ?thesis
      using bl Inr blocks_append [of P "b @ chunk" "concat chunks"]
      by (auto split: prod.splits sum.splits)
  qed
qed

text \<open>
  C3: the decoder is insensitive to chunk boundaries.  For every byte sequence and every
  way of cutting it into chunks, \<open>readStream\<close> yields the same payloads in the same order,
  and ends in the same way, as on the whole sequence delivered as one chunk.
\<close>

theorem readStream_chunking:
  "readStream P chunks ending = readStream P [concat chunks] ending"
  unfolding readStream_def by (rule loop_concat) simp

theorem readStream_chunking_witness:
  "readStream sample_platform [''data: 7'' @ [LF], LF # ''da'', ''ta: []'' @ [LF, LF]] Closed
     = readStream sample_platform [''data: 7'' @ [LF, LF] @ ''data: []'' @ [LF, LF]] Closed
   \<and> readStream sample_platform [''data: 7'' @ [LF], LF # ''da'', ''ta: []'' @ [LF, LF]] Closed
     = ([JNum 7, JArr []], None)"
  using readStream_chunking
    [of sample_platform "[''data: 7'' @ [LF], LF # ''da'', ''ta: []'' @ [LF, LF]]" Closed]
  by (simp add: run_defs sample_defs)

lemma indexOf_sep_mid: "indexOf_sep (a @ LF # LF # b) \<noteq> None"
  by (induction a rule: indexOf_sep.induct) auto

lemma rest_after_sep:
  assumes "readStream_blocks P (s @ [LF, LF]) = (ys, Inr r)"
  shows "r = [] \<or> r = [LF]"
proof -
  have sf: "suffix r (s @ [LF, LF])"
    using assms by (rule blocks_rest_suffix)
  have ns: "indexOf_sep r = None"
    using assms by (rule blocks_rest_no_sep)
  from sf obtain p where p: "s @ [LF, LF] = p @ r"
    by (auto simp: suffix_def)
  show ?thesis
  proof (cases "length r \<le> 1")
    case True
    then have "r = [] \<or> (\<exists>c. r = [c])"
      by (cases r) auto
    then show ?thesis
      using p by (auto simp: append_eq_append_conv2 Cons_eq_append_conv append_eq_Cons_conv)
  next
    case False
    have len: "length p + length r = length s + 2"
      using p by (metis length_append length_Cons list.size(3) Suc_1 add_Suc_right add_0_right One_nat_def)
    have "drop (length r - 2) r = drop (length p + (length r - 2)) (p @ r)"
      by simp
    also have "length p + (length r - 2) = length s"
      using len False by linarith
    also have "drop (length s) (p @ r) = [LF, LF]"
      using p [symmetric] by simp
    finally have "r = take (length r - 2) r @ [LF, LF]"
      by (metis append_take_drop_id)
    then show ?thesis
      using ns indexOf_sep_mid [of "take (length r - 2) r" "[]"] by simp
  qed
qed


lemma blocks_after_LF:
  assumes "indexOf_sep t = None"
  shows "\<exists>x. readStream_blocks P (LF # t) = ([], Inr x)"
proof (cases t)
  case Nil
  then show ?thesis by (simp add: readStream_blocks.simps)
next
  case (Cons c cs)
  show ?thesis
  proof (cases "c = LF")
    case True
    have "indexOf_sep cs = None"
      using assms Cons by (auto dest: indexOf_sep_tl)
    then show ?thesis
      using Cons True by (simp add: readStream_blocks.simps)
  next
    case False
    then show ?thesis
      using assms Cons by (simp add: readStream_blocks.simps)
  qed
qed

text \<open>
  C9: bytes after the last frame separator are dropped when the stream ends gracefully.
  Whatever follows the separator and holds no further separator, a complete \<open>data:\<close>
  line included, changes neither what \<open>readStream\<close> yields nor how it ends: the result is
  that of the stream cut after the separator, however the bytes arrive in chunks.  A
  stream with no separator at all yields nothing and ends without error.
\<close>

theorem readStream_trailing_discarded:
  "(indexOf_sep t = None \<and> concat chunks = s @ [LF, LF] @ t \<longrightarrow>
      readStream P chunks Closed = readStream P [s @ [LF, LF]] Closed)
   \<and> (indexOf_sep (concat chunks) = None \<longrightarrow> readStream P chunks Closed = ([], None))"
proof (intro conjI impI)
  assume h: "indexOf_sep t = None \<and> concat chunks = s @ [LF, LF] @ t"
  obtain ys x where bl: "readStream_blocks P (s @ [LF, LF]) = (ys, x)"
    by (cases "readStream_blocks P (s @ [LF, LF])")
  have ap: "readStream_blocks P ((s @ [LF, LF]) @ t) =
     (case x of Inl e \<Rightarrow> (ys, Inl e)
      | Inr r \<Rightarrow> (case readStream_blocks P (r @ t) of (zs, x) \<Rightarrow> (ys @ zs, x)))"
    using blocks_append [of P "s @ [LF, LF]" t] bl by (simp split: sum.splits)
  have whole: "readStream P chunks Closed = readStream P [(s @ [LF, LF]) @ t] Closed"
    using loop_concat [of "[]" P chunks Closed] h by (simp add: readStream_def)
  show "readStream P chunks Closed = readStream P [s @ [LF, LF]] Closed"
  proof (cases x)
    case (Inl e)
    then show ?thesis
      using whole ap bl by (simp add: readStream_def)
  next
    case (Inr r)
    then have "r = [] \<or> r = [LF]"
      using bl rest_after_sep by blast
    then obtain y where "readStream_blocks P (r @ t) = ([], Inr y)"
      using h blocks_after_LF [of t P] by (auto simp: blocks_no_sep)
    then show ?thesis
      using whole ap bl Inr by (simp add: readStream_def)
  qed
next
  assume "indexOf_sep (concat chunks) = None"
  then show "readStream P chunks Closed = ([], None)"
    using loop_concat [of "[]" P chunks Closed] by (simp add: readStream_def blocks_no_sep)
qed

theorem readStream_trailing_discarded_witness:
  "indexOf_sep (''data: 7'' @ [LF]) = None
   \<and> concat [''data: []'' @ [LF], LF # ''data: 7'' @ [LF]] = ''data: []'' @ [LF, LF] @ ''data: 7'' @ [LF]
   \<and> readStream sample_platform [''data: []'' @ [LF], LF # ''data: 7'' @ [LF]] Closed
       = readStream sample_platform [''data: []'' @ [LF, LF]] Closed
   \<and> readStream sample_platform [''data: []'' @ [LF, LF]] Closed = ([JArr []], None)
   \<and> indexOf_sep (concat [''data: 7'', [LF]]) = None
   \<and> readStream sample_platform [''data: 7'', [LF]] Closed = ([], None)"
proof -
  have h1: "indexOf_sep (''data: 7'' @ [LF]) = None"
    by simp
  have h2: "concat [''data: []'' @ [LF], LF # ''data: 7'' @ [LF]]
      = ''data: []'' @ [LF, LF] @ ''data: 7'' @ [LF]"
    by simp
  have h3: "indexOf_sep (concat [''data: 7'', [LF]]) = None"
    by simp
  have run: "readStream sample_platform [''data: []'' @ [LF, LF]] Closed = ([JArr []], None)"
    by (simp add: run_defs sample_defs)
  show ?thesis
    using h1 h2 h3 run
      readStream_trailing_discarded [of "''data: 7'' @ [LF]"
        "[''data: []'' @ [LF], LF # ''data: 7'' @ [LF]]" "''data: []''" sample_platform]
      readStream_trailing_discarded [of "[]" "[''data: 7'', [LF]]" "[]" sample_platform]
    by simp
qed

section \<open>The live operation: requests, retry counter, cancellation\<close>

lemma live_consume_zero: "fst (snd (live_consume 0 datas)) = 0"
  by (induction datas) (auto split: sum.splits prod.splits)

lemma live_consume_count:
  "fst (snd (live_consume count datas)) =
     (case datas of JArr items # rest \<Rightarrow> 0 | _ \<Rightarrow> count)"
proof (cases datas)
  case Nil
  then show ?thesis by simp
next
  case (Cons d rest)
  show ?thesis
  proof (cases d)
    case (JArr items)
    then show ?thesis
      using Cons live_consume_zero [of rest] by (auto split: prod.splits)
  next
    case (JObj props)
    then show ?thesis using Cons by simp
  qed (use Cons in simp_all)
qed

lemma live_consume_yields_aux:
  "live_consume count datas = (tr, c, r) \<Longrightarrow> set tr \<subseteq> range Yield"
proof (induction datas arbitrary: count tr c r)
  case Nil
  then show ?case by simp
next
  case (Cons d datas)
  show ?case
  proof (cases "live_data d")
    case (Inl e)
    then show ?thesis using Cons.prems by simp
  next
    case (Inr items)
    obtain tr1 c1 r1 where rec: "live_consume 0 datas = (tr1, c1, r1)"
      by (cases "live_consume 0 datas")
    have "set tr1 \<subseteq> range Yield"
      using rec by (rule Cons.IH)
    then show ?thesis
      using Cons.prems Inr rec by auto
  qed
qed

lemma live_consume_yields: "set (fst (live_consume count datas)) \<subseteq> range Yield"
  using live_consume_yields_aux [of count datas] by (cases "live_consume count datas") auto

lemma live_try_trace:
  "set (fst (live_try P opts count conn)) \<subseteq>
     {EmitRequest (Get (searchParams opts)), EmitResponse} \<union> range Yield"
proof (cases conn)
  case (Body chunks ending)
  obtain datas r where rs: "readStream P chunks ending = (datas, r)"
    by (cases "readStream P chunks ending")
  obtain tr c e where lc: "live_consume count datas = (tr, c, e)"
    by (cases "live_consume count datas")
  have "set tr \<subseteq> range Yield"
    using live_consume_yields [of count datas] lc by simp
  then show ?thesis
    using Body rs lc by (cases e) auto
qed simp_all

lemma live_loop_trace:
  "set (fst (live_loop P opts count lastError shouldAbort script)) \<subseteq>
     {EmitRequest (Get (searchParams opts)), EmitResponse} \<union> range Yield
     \<union> range EmitError \<union> range Sleep"
proof (induction script arbitrary: count lastError shouldAbort)
  case Nil
  then show ?case by simp
next
  case (Cons a script)
  obtain tr c r where lt: "live_try P opts (count + 1) (answer a) = (tr, c, r)"
    by (cases "live_try P opts (count + 1) (answer a)")
  have tr: "set tr \<subseteq> {EmitRequest (Get (searchParams opts)), EmitResponse} \<union> range Yield"
    using live_try_trace [of P opts "count + 1" "answer a"] lt by simp
  show ?case
  proof (cases r)
    case None
    then show ?thesis using lt tr by auto
  next
    case (Some e)
    obtain tr' out where rec: "live_loop P opts c (Some e)
        (shouldAbort \<or> abort_in_try a \<or> abort_in_sleep a) script = (tr', out)"
      by (cases "live_loop P opts c (Some e) (shouldAbort \<or> abort_in_try a \<or> abort_in_sleep a) script")
    have "set tr' \<subseteq> {EmitRequest (Get (searchParams opts)), EmitResponse} \<union> range Yield
       \<union> range EmitError \<union> range Sleep"
      using Cons.IH [of c "Some e" "shouldAbort \<or> abort_in_try a \<or> abort_in_sleep a"] rec by simp
    then show ?thesis
      using lt tr Some rec by (auto split: if_splits)
  qed
qed

lemma foldl_append_map_of:
  "k \<noteq> ''signatures'' \<Longrightarrow>
   map_of (foldl (\<lambda>ps sig. params_append ''signatures'' sig ps) params sigs) k = map_of params k"
  by (induction sigs arbitrary: params) (auto simp: params_append_def map_add_def split: option.splits)

lemma searchParams_cursor:
  "map_of (searchParams opts) ''cursor'' =
     (if truthy_cursor (cursor opts) then map_option cursor_string (cursor opts) else None)"
  by (auto simp: searchParams_def params_set_def update_conv' foldl_append_map_of Let_def
      split: option.splits)

text \<open>
  C1, as stated: after a retryable failure that follows a yielded batch, the reopened
  connection's request carries the cursor of the most recent batch, not the caller's.
  \<open>live\<close> never assigns \<open>cursor\<close>.  In the run below the caller's cursor is \<open>8453-1\<close>; the
  first connection yields a batch whose cursor is \<open>8453-2\<close> and then reports a \<open>server\<close>
  error; the request that reopens the connection carries \<open>8453-1\<close> again.
\<close>

theorem live_reopens_with_caller_cursor_counterexample:
  "live sample_platform sample_options
     [\<lparr> answer = Body [sample_batch_frame, sample_server_error_frame] Closed,
         abort_in_try = False, abort_in_sleep = False \<rparr>,
      \<lparr> answer = Body [] Closed, abort_in_try = False, abort_in_sleep = False \<rparr>]
   = ([EmitRequest (Get [(''cursor'', ''8453-1''), (''signatures'', sample_signature),
                          (''query'', sample_query)]),
       EmitResponse,
       Yield (JObj [(''cursor'', JStr ''8453-2''), (''rows'', JArr [])]),
       EmitError (SseError (JStr ''restart'') (JStr ''server'')),
       Sleep 100,
       EmitRequest (Get [(''cursor'', ''8453-1''), (''signatures'', sample_signature),
                          (''query'', sample_query)]),
       EmitResponse],
      Returned ())"
  by (simp add: run_defs sample_defs)

text \<open>
  C1, amended: every request of a \<open>live\<close> invocation, the first and each one that reopens
  the connection after a retryable failure, carries the same query-string parameters,
  computed from the caller's options alone: its \<open>cursor\<close> parameter is the caller-supplied
  cursor (serialized) when that cursor is truthy and is absent otherwise, whatever
  batches have been yielded.  The client computes no position of its own.
\<close>

theorem live_requests:
  assumes "EmitRequest r \<in> set (fst (live P opts script))"
  shows "\<exists>params. r = Get params \<and> params = searchParams opts
           \<and> map_of params ''cursor'' =
               (if truthy_cursor (cursor opts) then map_option cursor_string (cursor opts) else None)"
  using assms live_loop_trace [of P opts 0 None False script] searchParams_cursor [of opts]
  by (auto simp: live_def)

theorem live_requests_witness:
  "EmitRequest (Get [(''cursor'', ''8453-1''), (''signatures'', sample_signature),
                     (''query'', sample_query)])
     \<in> set (fst (live sample_platform sample_options
          [\<lparr> answer = Body [sample_batch_frame, sample_server_error_frame] Closed,
              abort_in_try = False, abort_in_sleep = False \<rparr>,
           \<lparr> answer = Body [] Closed, abort_in_try = False, abort_in_sleep = False \<rparr>]))
   \<and> searchParams sample_options
        = [(''cursor'', ''8453-1''), (''signatures'', sample_signature), (''query'', sample_query)]
   \<and> map_of (searchParams sample_options) ''cursor'' = Some ''8453-1''"
proof -
  have mem: "EmitRequest (Get [(''cursor'', ''8453-1''), (''signatures'', sample_signature),
                     (''query'', sample_query)])
     \<in> set (fst (live sample_platform sample_options
          [\<lparr> answer = Body [sample_batch_frame, sample_server_error_frame] Closed,
              abort_in_try = False, abort_in_sleep = False \<rparr>,
           \<lparr> answer = Body [] Closed, abort_in_try = False, abort_in_sleep = False \<rparr>]))"
    by (simp add: run_defs sample_defs)
  from live_requests [OF mem] have
    eq: "searchParams sample_options
        = [(''cursor'', ''8453-1''), (''signatures'', sample_signature), (''query'', sample_query)]"
    by auto
  show ?thesis
    using mem eq by simp
qed

text \<open>
  C4, as stated: the retry counter is reset to 0 exactly when the session yields at least
  one record, and a decoded payload that yields no record does not reset it.  Line 309
  runs after the \<open>for\<close> loop over the payload's items whether or not that loop yielded.
  Below, a connection entered with \<open>count = 2\<close> delivers the payload \<open>[]\<close>: nothing is
  yielded and \<open>count\<close> is 0 afterwards; and in a whole run the failure that follows such a
  payload is slept off for 100 ms, the delay of \<open>count = 0\<close>, not for the 400 ms of
  \<open>count = 2\<close>.
\<close>

theorem live_empty_payload_resets_count_counterexample:
  "live_try sample_platform sample_options 2 (Body [''data: []'' @ [LF, LF]] Closed)
     = ([sample_request, EmitResponse], 0, None)
   \<and> live sample_platform sample_options
       [\<lparr> answer = NotOk 503 (JStr ''busy''), abort_in_try = False, abort_in_sleep = False \<rparr>,
        \<lparr> answer = Body [''data: []'' @ [LF, LF], sample_server_error_frame] Closed,
           abort_in_try = False, abort_in_sleep = False \<rparr>,
        \<lparr> answer = Body [] Closed, abort_in_try = False, abort_in_sleep = False \<rparr>]
     = ([sample_request, EmitResponse, EmitError (FetchRequestError (JStr ''busy'') 503), Sleep 200,
         sample_request, EmitResponse, EmitError (SseError (JStr ''restart'') (JStr ''server'')),
         Sleep 100,
         sample_request, EmitResponse],
        Returned ())"
  by (simp add: run_defs sample_defs)

text \<open>
  C4, amended: within one \<open>live\<close> session the retry counter is reset to 0 after every
  decoded payload that is a sequence of batches, once its batches have been yielded, also
  when the sequence is empty and nothing was yielded; nothing else in an attempt changes
  it.  So when an attempt is left, the counter is 0 if the first payload decoded on that
  connection was a sequence of batches, and has the value it had on entry otherwise.
\<close>

theorem live_count_after_try:
  assumes "live_try P opts count conn = (tr, count', r)"
  shows "count' =
     (if \<exists>chunks ending items rest.
           conn = Body chunks ending \<and> fst (readStream P chunks ending) = JArr items # rest
      then 0 else count)"
proof (cases conn)
  case (Body chunks ending)
  obtain datas e where rs: "readStream P chunks ending = (datas, e)"
    by (cases "readStream P chunks ending")
  obtain tr1 c1 e1 where lc: "live_consume count datas = (tr1, c1, e1)"
    by (cases "live_consume count datas")
  have "count' = c1"
    using assms Body rs lc by (cases e1) auto
  moreover have "c1 = (case datas of JArr items # rest \<Rightarrow> 0 | _ \<Rightarrow> count)"
    using live_consume_count [of count datas] lc by simp
  ultimately show ?thesis
    using Body rs by (auto split: list.splits jsval.splits)
qed (use assms in auto)

theorem live_count_after_try_witness:
  "live_try sample_platform sample_options 2 (Body [''data: []'' @ [LF, LF]] Closed)
     = ([sample_request, EmitResponse], 0, None)
   \<and> fst (readStream sample_platform [''data: []'' @ [LF, LF]] Closed) = JArr [] # []
   \<and> live_try sample_platform sample_options 2 (NotOk 503 (JStr ''busy''))
     = ([sample_request, EmitResponse], 2, Some (FetchRequestError (JStr ''busy'') 503))"
proof -
  have run: "live_try sample_platform sample_options 2 (Body [''data: []'' @ [LF, LF]] Closed)
     = ([sample_request, EmitResponse], 0, None)"
    by (simp add: run_defs sample_defs)
  have run': "live_try sample_platform sample_options 2 (NotOk 503 (JStr ''busy''))
     = ([sample_request, EmitResponse], 2, Some (FetchRequestError (JStr ''busy'') 503))"
    by (simp add: run_defs sample_defs)
  have rs: "fst (readStream sample_platform [''data: []'' @ [LF, LF]] Closed) = JArr [] # []"
    by (simp add: run_defs sample_defs)
  show ?thesis
    using run run' rs live_count_after_try [OF run] live_count_after_try [OF run']
    by simp
qed

text \<open>
  C8, as stated: a cancellation observed at any suspension point of \<open>live\<close>, the backoff
  sleep included, ends the sequence silently.  The sleep of lines 324-326 is a plain
  timer and \<open>shouldAbort\<close> is read only in the \<open>catch\<close> block.  Below, \<open>retryCount\<close> is 1,
  the only attempt fails with status 503, and the signal fires during the backoff sleep:
  the loop ends and the last error is thrown.
\<close>

theorem live_abort_in_last_sleep_counterexample:
  "live sample_platform (sample_options \<lparr> retryCount := Some 1 \<rparr>)
     [\<lparr> answer = NotOk 503 (JStr ''busy''), abort_in_try = False, abort_in_sleep = True \<rparr>]
   = ([sample_request, EmitResponse, EmitError (FetchRequestError (JStr ''busy'') 503), Sleep 200],
      Threw (FetchRequestError (JStr ''busy'') 503))"
  by (simp add: run_defs sample_defs)

text \<open>
  C8, amended: in \<open>live\<close>, when the signal has fired by the time an attempt fails or ends,
  because it fired while that attempt was under way (awaiting the request or a read of
  the stream) or during an earlier backoff sleep, the sequence ends silently with that
  attempt: nothing is thrown, no \<open>error\<close> event is emitted and no later attempt is made.
  The backoff sleep itself is not interrupted: a signal that fires during it is noticed
  only in the attempt that follows, when the loop allows one, and the request of that
  attempt is still issued.  In \<open>fetch\<close>, a request that rejects with the cancellation
  error is not retried: the error is emitted and thrown to the caller.
\<close>

theorem live_cancellation:
  "(int count < live_retryCount opts \<and> (shouldAbort \<or> abort_in_try a) \<longrightarrow>
      live_loop P opts count lastError shouldAbort (a # script) =
        (fst (live_try P opts (count + 1) (answer a)), Returned ())
      \<and> hd (fst (live_try P opts (count + 1) (answer a))) = EmitRequest (Get (searchParams opts))
      \<and> (\<forall>e. EmitError e \<notin> set (fst (live_loop P opts count lastError shouldAbort (a # script)))))
   \<and> (int count < live_retryCount opts \<and> \<not> shouldAbort \<and> \<not> abort_in_try a \<and> abort_in_sleep a
        \<and> live_try P opts (count + 1) (answer a) = (tr, c, Some e) \<and> shouldRetry e
        \<and> int c < live_retryCount opts \<longrightarrow>
      live_loop P opts count lastError shouldAbort (a # b # script) =
        (tr @ [EmitError e, Sleep (backoff c)] @ fst (live_try P opts (c + 1) (answer b)),
         Returned ()))
   \<and> (int n < fetch_retryCount fopts \<longrightarrow>
        fetch_loop P fopts n lastError' (FetchRejects AbortError # fscript) =
          ([EmitRequest (Post (requestBody fopts)), EmitError AbortError], Threw AbortError))"
proof -
  obtain tr1 c1 r1 where lt: "live_try P opts (count + 1) (answer a) = (tr1, c1, r1)"
    by (cases "live_try P opts (count + 1) (answer a)")
  have noerr: "EmitError e \<notin> set tr1" for e
    using live_try_trace [of P opts "count + 1" "answer a"] lt by auto
  have first: "hd (fst (live_try P opts k conn)) = EmitRequest (Get (searchParams opts))" for k conn
  proof (cases conn)
    case (Body chunks ending)
    then show ?thesis
      by (auto split: prod.splits option.splits)
  qed simp_all
  have silent: "int count < live_retryCount opts \<and> (shouldAbort \<or> abort_in_try a) \<longrightarrow>
      live_loop P opts count lastError shouldAbort (a # script) =
        (fst (live_try P opts (count + 1) (answer a)), Returned ())
      \<and> hd (fst (live_try P opts (count + 1) (answer a))) = EmitRequest (Get (searchParams opts))
      \<and> (\<forall>e. EmitError e \<notin> set (fst (live_loop P opts count lastError shouldAbort (a # script))))"
    using lt noerr first [of "count + 1" "answer a"] by (cases r1) auto
  have sleep: "int count < live_retryCount opts \<and> \<not> shouldAbort \<and> \<not> abort_in_try a
        \<and> abort_in_sleep a
        \<and> live_try P opts (count + 1) (answer a) = (tr, c, Some e) \<and> shouldRetry e
        \<and> int c < live_retryCount opts \<longrightarrow>
      live_loop P opts count lastError shouldAbort (a # b # script) =
        (tr @ [EmitError e, Sleep (backoff c)] @ fst (live_try P opts (c + 1) (answer b)),
         Returned ())"
  proof (intro impI)
    assume h: "int count < live_retryCount opts \<and> \<not> shouldAbort \<and> \<not> abort_in_try a
        \<and> abort_in_sleep a
        \<and> live_try P opts (count + 1) (answer a) = (tr, c, Some e) \<and> shouldRetry e
        \<and> int c < live_retryCount opts"
    obtain tr2 c2 r2 where lt2: "live_try P opts (c + 1) (answer b) = (tr2, c2, r2)"
      by (cases "live_try P opts (c + 1) (answer b)")
    show "live_loop P opts count lastError shouldAbort (a # b # script) =
        (tr @ [EmitError e, Sleep (backoff c)] @ fst (live_try P opts (c + 1) (answer b)),
         Returned ())"
      using h lt2 by (cases r2) (auto simp: last_or_maximum_def simp del: shouldRetry.simps)
  qed
  have rejected: "int n < fetch_retryCount fopts \<longrightarrow>
        fetch_loop P fopts n lastError' (FetchRejects AbortError # fscript) =
          ([EmitRequest (Post (requestBody fopts)), EmitError AbortError], Threw AbortError)"
    by simp
  show ?thesis
    using silent sleep rejected by blast
qed

theorem live_cancellation_witness:
  "int 0 < live_retryCount sample_options
   \<and> live_loop sample_platform sample_options 0 None False
       [\<lparr> answer = Body [sample_batch_frame] (Errored AbortError),
           abort_in_try = True, abort_in_sleep = False \<rparr>,
        \<lparr> answer = Body [] Closed, abort_in_try = False, abort_in_sleep = False \<rparr>]
     = ([sample_request, EmitResponse,
         Yield (JObj [(''cursor'', JStr ''8453-2''), (''rows'', JArr [])])], Returned ())
   \<and> live_try sample_platform sample_options (0 + 1) (NotOk 503 (JStr ''busy''))
     = ([sample_request, EmitResponse], 1, Some (FetchRequestError (JStr ''busy'') 503))
   \<and> shouldRetry (FetchRequestError (JStr ''busy'') 503)
   \<and> int 1 < live_retryCount sample_options
   \<and> live_loop sample_platform sample_options 0 None False
       [\<lparr> answer = NotOk 503 (JStr ''busy''), abort_in_try = False, abort_in_sleep = True \<rparr>,
        \<lparr> answer = Rejects AbortError, abort_in_try = False, abort_in_sleep = False \<rparr>]
     = ([sample_request, EmitResponse, EmitError (FetchRequestError (JStr ''busy'') 503), Sleep 200,
         sample_request], Returned ())
   \<and> int 0 < fetch_retryCount sample_options
   \<and> fetch_loop sample_platform sample_options 0 None [FetchRejects AbortError]
     = ([EmitRequest (Post [(''query'', JStr sample_query), (''cursor'', JStr ''8453-1''),
                            (''signatures'', JArr [JStr sample_signature])]),
         EmitError AbortError],
        Threw AbortError)"
  using
    live_cancellation [where count = 0 and opts = sample_options and shouldAbort = False
      and a = "\<lparr> answer = Body [sample_batch_frame] (Errored AbortError),
                 abort_in_try = True, abort_in_sleep = False \<rparr>"
      and script = "[\<lparr> answer = Body [] Closed, abort_in_try = False, abort_in_sleep = False \<rparr>]"
      and P = sample_platform and lastError = None and n = 0 and fopts = sample_options
      and lastError' = None and fscript = "[]"]
    live_cancellation [where count = 0 and opts = sample_options and shouldAbort = False
      and a = "\<lparr> answer = NotOk 503 (JStr ''busy''), abort_in_try = False, abort_in_sleep = True \<rparr>"
      and b = "\<lparr> answer = Rejects AbortError, abort_in_try = False, abort_in_sleep = False \<rparr>"
      and script = "[]" and tr = "[sample_request, EmitResponse]" and c = 1
      and e = "FetchRequestError (JStr ''busy'') 503"
      and P = sample_platform and lastError = None and n = 0 and fopts = sample_options
      and lastError' = None and fscript = "[]"]
  by (simp add: run_defs sample_defs)

lemma fetch_try_trace:
  "set (fst (fetch_try P opts x)) \<subseteq> {EmitRequest (Post (requestBody opts)), EmitResponse}"
proof (cases x)
  case (Json first)
  then show ?thesis by (cases first) auto
qed auto

lemma fetch_loop_trace:
  "set (fst (fetch_loop P opts count lastError script)) \<subseteq>
     {EmitRequest (Post (requestBody opts)), EmitResponse} \<union> range EmitError \<union> range Sleep"
proof (induction script arbitrary: count lastError)
  case Nil
  then show ?case by simp
next
  case (Cons x script)
  obtain tr res where ft: "fetch_try P opts x = (tr, res)"
    by (cases "fetch_try P opts x")
  have tr: "set tr \<subseteq> {EmitRequest (Post (requestBody opts)), EmitResponse}"
    using fetch_try_trace [of P opts x] ft by simp
  show ?case
  proof (cases res)
    case (Inr v)
    then show ?thesis using ft tr by auto
  next
    case (Inl e)
    obtain tr' out where rec: "fetch_loop P opts (count + 1) (Some e) script = (tr', out)"
      by (cases "fetch_loop P opts (count + 1) (Some e) script")
    have "set tr' \<subseteq> {EmitRequest (Post (requestBody opts)), EmitResponse}
        \<union> range EmitError \<union> range Sleep"
      using Cons.IH [of "count + 1" "Some e"] rec by simp
    then show ?thesis
      using ft tr Inl rec by (auto split: if_splits)
  qed
qed

lemma requestBody_cursor:
  "map_of (requestBody opts) ''cursor'' = map_option (\<lambda>c. JStr (cursor_string c)) (cursor opts)"
  by (simp add: requestBody_def update_conv' Let_def split: option.splits)

text \<open>
  C10: a caller-supplied cursor that is the empty string is sent by \<open>fetch\<close>, whose
  request body then has \<open>cursor: ""\<close>, and is left out by \<open>live\<close>, whose query string then
  has no \<open>cursor\<close> parameter; an undefined cursor is left out by both.  \<open>fetch\<close> includes
  the cursor exactly when it is not undefined, \<open>live\<close> exactly when it is truthy, and
  every request of either operation is built this way.
\<close>

theorem empty_cursor_in_fetch_and_live:
  "(cursor opts = Some (CursorString []) \<longrightarrow>
      map_of (requestBody opts) ''cursor'' = Some (JStr [])
      \<and> map_of (searchParams opts) ''cursor'' = None)
   \<and> (cursor opts = None \<longrightarrow>
      map_of (requestBody opts) ''cursor'' = None \<and> map_of (searchParams opts) ''cursor'' = None)
   \<and> (map_of (requestBody opts) ''cursor'' \<noteq> None) = (cursor opts \<noteq> None)
   \<and> (map_of (searchParams opts) ''cursor'' \<noteq> None) = truthy_cursor (cursor opts)
   \<and> (EmitRequest r \<in> set (fst (fetch P opts fscript)) \<longrightarrow> r = Post (requestBody opts))
   \<and> (EmitRequest r' \<in> set (fst (live P opts script)) \<longrightarrow> r' = Get (searchParams opts))"
proof -
  have "r = Post (requestBody opts)" if "EmitRequest r \<in> set (fst (fetch P opts fscript))"
    using that fetch_loop_trace [of P opts 0 None fscript] by (auto simp: fetch_def)
  moreover have "r' = Get (searchParams opts)" if "EmitRequest r' \<in> set (fst (live P opts script))"
    using that live_loop_trace [of P opts 0 None False script] by (auto simp: live_def)
  moreover have "(map_of (searchParams opts) ''cursor'' \<noteq> None) = truthy_cursor (cursor opts)"
    by (cases "cursor opts") (auto simp: searchParams_cursor)
  ultimately show ?thesis
    by (auto simp: requestBody_cursor searchParams_cursor)
qed

theorem empty_cursor_in_fetch_and_live_witness:
  "cursor (sample_options \<lparr> cursor := Some (CursorString []) \<rparr>) = Some (CursorString [])
   \<and> requestBody (sample_options \<lparr> cursor := Some (CursorString []) \<rparr>)
       = [(''query'', JStr sample_query), (''cursor'', JStr []),
          (''signatures'', JArr [JStr sample_signature])]
   \<and> searchParams (sample_options \<lparr> cursor := Some (CursorString []) \<rparr>)
       = [(''signatures'', sample_signature), (''query'', sample_query)]
   \<and> fetch sample_platform (sample_options \<lparr> cursor := Some (CursorString []) \<rparr>)
        [FetchNotOk 404 (JStr ''missing'')]
       = ([EmitRequest (Post [(''query'', JStr sample_query), (''cursor'', JStr []),
                              (''signatures'', JArr [JStr sample_signature])]),
           EmitResponse, EmitError (FetchRequestError (JStr ''missing'') 404)],
          Threw (FetchRequestError (JStr ''missing'') 404))
   \<and> live sample_platform (sample_options \<lparr> cursor := Some (CursorString []) \<rparr>)
        [\<lparr> answer = Body [] Closed, abort_in_try = False, abort_in_sleep = False \<rparr>]
       = ([EmitRequest (Get [(''signatures'', sample_signature), (''query'', sample_query)]),
           EmitResponse],
          Returned ())"
  using empty_cursor_in_fetch_and_live
    [where opts = "sample_options \<lparr> cursor := Some (CursorString []) \<rparr>"
       and P = sample_platform and fscript = "[FetchNotOk 404 (JStr ''missing'')]"
       and script = "[\<lparr> answer = Body [] Closed, abort_in_try = False, abort_in_sleep = False \<rparr>]"
       and r = "Post [(''query'', JStr sample_query), (''cursor'', JStr []),
                      (''signatures'', JArr [JStr sample_signature])]"
       and r' = "Get [(''signatures'', sample_signature), (''query'', sample_query)]"]
  by (simp add: run_defs sample_defs)

section \<open>Row decoding: schemas, precedence, shape\<close>

lemma is_digit_not_bracket: "list_all is_digit ds \<Longrightarrow> CHR ''['' \<notin> set ds"
  by (induction ds) (auto simp: is_digit_def)

lemma transform_sized_scalar:
  assumes "ds \<noteq> []" and "list_all is_digit ds"
  shows "transform (''uint'' @ ds) =
           (if Number_of_digits ds \<le> 48 then Transform_Number else Transform_BigInt)"
    and "transform (''int'' @ ds) =
           (if Number_of_digits ds \<le> 48 then Transform_Number else Transform_BigInt)"
  using assms is_digit_not_bracket [OF assms(2)] by (simp_all add: transform_def)

lemma transform_unsized_scalar:
  "transform ''uint'' = Transform_BigInt" "transform ''int'' = Transform_BigInt"
  by (simp_all add: transform_def)

lemma match_int_size_digits:
  "match_int_size t = Some ds \<Longrightarrow> ds \<noteq> [] \<and> list_all is_digit ds \<and> suffix ds t"
proof (induction t)
  case Nil
  then show ?case by simp
next
  case (Cons c cs)
  show ?case
  proof (cases "prefix ''int'' (c # cs) \<and> drop 3 (c # cs) \<noteq> [] \<and> list_all is_digit (drop 3 (c # cs))")
    case True
    define d where "d = drop 3 (c # cs)"
    have "suffix d (c # cs)"
      unfolding d_def by (rule suffix_drop)
    moreover have "d \<noteq> []" and "list_all is_digit d"
      using True unfolding d_def by simp_all
    moreover have "ds = d"
      using Cons.prems True unfolding d_def by simp
    ultimately show ?thesis
      by simp
  next
    case False
    then have "match_int_size cs = Some ds"
      using Cons.prems by auto
    then show ?thesis
      using Cons.IH by (simp add: suffix_Cons)
  qed
qed

lemma transform_int_array:
  assumes "prefix ''int'' t \<or> prefix ''uint'' t" and "CHR ''['' \<in> set t"
    and "t \<noteq> []" and "\<not> is_digit (last t)"
  shows "transform t = Array Transform_BigInt"
proof -
  have "match_int_size t = None"
  proof (cases "match_int_size t")
    case (Some ds)
    then have "ds \<noteq> []" and "list_all is_digit ds" and "suffix ds t"
      using match_int_size_digits by blast+
    then have "is_digit (last t)"
      by (auto simp: suffix_def list_all_iff)
    then show ?thesis
      using assms(4) by simp
  qed simp
  moreover have "t \<noteq> ''address''" "t \<noteq> ''bool''"
    using assms(1) by auto
  moreover have "\<not> prefix ''bytes'' t"
    using assms(1) by (cases t) auto
  ultimately show ?thesis
    using assms(1,2) by (simp add: transform_def)
qed

text \<open>
  C5: the schema of an \<open>int*\<close>/\<open>uint*\<close> input.  For a type that is not an array the width
  rule holds (\<open>transform_sized_scalar\<close>, \<open>transform_unsized_scalar\<close>).  For an array type
  the pattern \<open>/int(\d+)$/\<close> finds no width, because the digits do not reach the end of
  the string, and the elements are converted with \<open>BigInt\<close> whatever the declared width
  (\<open>transform_int_array\<close>): \<open>uint8\<close> is converted with \<open>Number\<close>, the elements of
  \<open>uint8[]\<close> with \<open>BigInt\<close>.
\<close>

theorem transform_uint8_array:
  "transform ''uint8'' = Transform_Number
   \<and> match_int_size ''uint8[]'' = None
   \<and> transform ''uint8[]'' = Array Transform_BigInt"
  by (simp add: transform_def is_digit_def Number_of_digits_def)

lemma signature_types_plain:
  "signature_types P inputs T = Inr T' \<Longrightarrow> ''__proto__'' \<notin> fst ` set inputs \<Longrightarrow>
   types_proto T = None \<Longrightarrow> types_proto T' = None"
proof (induction inputs arbitrary: T)
  case Nil
  then show ?case by simp
next
  case (Cons input inputs)
  obtain n ty where input: "input = (n, ty)"
    by (cases input)
  show ?case
  proof (cases "n = []")
    case True
    then show ?thesis
      using Cons input by simp
  next
    case False
    from Cons.prems(1) input False obtain T1 where
      set: "types_set P n (transform ty) T = Inr T1" and
      rec: "signature_types P inputs T1 = Inr T'"
      by (auto split: sum.splits)
    have "n \<noteq> ''__proto__''"
      using Cons.prems(2) input by auto
    then have "types_proto T1 = None"
      using set Cons.prems(3) by (auto simp: types_set_def split: if_splits)
    then show ?thesis
      using Cons.IH [OF rec] Cons.prems(2) by simp
  qed
qed

lemma signatureTypes_plain:
  assumes "signatureTypes P sigs acc = Inr S"
    and "sigs_proto acc = None"
    and "\<forall>T \<in> ran (sigs_own acc). types_proto T = None"
    and "\<forall>sig \<in> set sigs. \<forall>n inputs. AbiItem_from P sig = Inr (Named n inputs) \<longrightarrow>
           toLowerCase n \<noteq> ''__proto__'' \<and> ''__proto__'' \<notin> fst ` set inputs"
  shows "sigs_proto S = None \<and> (\<forall>T \<in> ran (sigs_own S). types_proto T = None)"
  using assms
proof (induction sigs arbitrary: acc)
  case Nil
  then show ?case by simp
next
  case (Cons sig rest)
  show ?case
  proof (cases "AbiItem_from P sig")
    case (Inl e)
    then show ?thesis using Cons.prems by simp
  next
    case (Inr item)
    show ?thesis
    proof (cases item)
      case Unnamed
      then show ?thesis
        using Cons.prems Inr Cons.IH [of acc] by simp
    next
      case (Named n inputs)
      have names: "toLowerCase n \<noteq> ''__proto__''" "''__proto__'' \<notin> fst ` set inputs"
        using Cons.prems(4) Inr Named by auto
      from Cons.prems(1) Inr Named obtain T acc' where
        built: "signature_types P inputs (Types Map.empty None) = Inr T" and
        set: "sigs_set P (toLowerCase n) T acc = Inr acc'" and
        run: "signatureTypes P rest acc' = Inr S"
        by (auto split: sum.splits)
      have T: "types_proto T = None"
        using signature_types_plain [OF built names(2)] by simp
      have acc': "acc' = Sigs ((sigs_own acc)(toLowerCase n \<mapsto> T)) None"
        using set names(1) Cons.prems(2) by (auto simp: sigs_set_def split: if_splits)
      have p: "sigs_proto acc' = None"
        using acc' by simp
      have q: "\<forall>T \<in> ran (sigs_own acc'). types_proto T = None"
        using acc' T Cons.prems(3) by (auto simp: ran_def split: if_splits)
      show ?thesis
        using Cons.IH [OF run p q] Cons.prems(4) by simp
    qed
  qed
qed




lemma set_first_occurrences: "set (first_occurrences xs) = set xs"
  by (induction xs) auto

lemma first_occurrences_distinct: "distinct xs \<Longrightarrow> first_occurrences xs = xs"
  by (induction xs) (auto simp: set_first_occurrences)

lemma filter_removeAll_in:
  "n \<in> A \<Longrightarrow> filter (\<lambda>k. k \<notin> A) (removeAll n xs) = filter (\<lambda>k. k \<notin> A) xs"
  by (induction xs) auto

lemma filter_removeAll_insert:
  "filter (\<lambda>k. k \<notin> A) (removeAll n xs) = filter (\<lambda>k. k \<notin> insert n A) xs"
  by (induction xs) auto

lemma row_set_plain:
  assumes "\<not> is_array_index k" and "k \<noteq> ''__proto__''"
  shows "row_set k v (row, setter) = (AList.update k v row, setter)"
proof -
  have "AList.update k v row = row @ [(k, v)]" if "k \<notin> set (map fst row)"
    using that by (induction row) auto
  then show ?thesis
    using assms by (auto simp: row_set_def)
qed

lemma parse_columns_keys:
  assumes "parse_columns P sigTypes sql src row_raw j cols (row, setter) = Inr row'"
    and "\<forall>c \<in> set cols. \<not> is_array_index (column_name c) \<and> column_name c \<noteq> ''__proto__''"
  shows "map fst row' =
     map fst row @ filter (\<lambda>k. k \<notin> set (map fst row)) (first_occurrences (map column_name cols))"
  using assms
proof (induction cols arbitrary: j row)
  case Nil
  then show ?case by simp
next
  case (Cons c cols)
  have c: "\<not> is_array_index (column_name c)" "column_name c \<noteq> ''__proto__''"
    using Cons.prems(2) by simp_all
  from Cons.prems(1) obtain found v where
    g: "getColumnTableName P (column_name c) sql = Inr found" and
    cv: "cell_value P sigTypes (case found of Some t \<Rightarrow> Some t | None \<Rightarrow> src)
           (column_name c) (at_index row_raw j) = Inr v" and
    rec: "parse_columns P sigTypes sql src row_raw (j + 1) cols
           (row_set (column_name c) v (row, setter)) = Inr row'"
    by (auto split: sum.splits)
  have rec': "parse_columns P sigTypes sql src row_raw (j + 1) cols
           (AList.update (column_name c) v row, setter) = Inr row'"
    using rec row_set_plain [OF c] by simp
  have rest: "\<forall>c \<in> set cols. \<not> is_array_index (column_name c) \<and> column_name c \<noteq> ''__proto__''"
    using Cons.prems(2) by simp
  have ih: "map fst row' = map fst (AList.update (column_name c) v row)
      @ filter (\<lambda>k. k \<notin> set (map fst (AList.update (column_name c) v row)))
          (first_occurrences (map column_name cols))"
    using rec' rest by (rule Cons.IH)
  show ?case
  proof (cases "column_name c \<in> set (map fst row)")
    case True
    then show ?thesis
      using ih filter_removeAll_in [of "column_name c" "set (map fst row)"]
      by (simp add: update_keys)
  next
    case False
    then show ?thesis
      using ih filter_removeAll_insert [of "set (map fst row)" "column_name c"]
      by (simp add: update_keys)
  qed
qed

lemma parse_rows_all2:
  "parse_rows P sigTypes sql src cols rows_raw acc = Inr out \<Longrightarrow>
   \<exists>rows. out = acc @ rows \<and>
     list_all2 (\<lambda>row_raw row. parse_columns P sigTypes sql src row_raw 0 cols ([], True) = Inr row)
       rows_raw rows"
proof (induction rows_raw arbitrary: acc)
  case Nil
  then show ?case by simp
next
  case (Cons row_raw rest)
  from Cons.prems obtain row where
    pc: "parse_columns P sigTypes sql src row_raw 0 cols ([], True) = Inr row" and
    rec: "parse_rows P sigTypes sql src cols rest (acc @ [row]) = Inr out"
    by (auto split: sum.splits)
  from Cons.IH [OF rec] obtain rows where
    "out = (acc @ [row]) @ rows" and
    "list_all2 (\<lambda>row_raw row. parse_columns P sigTypes sql src row_raw 0 cols ([], True) = Inr row) rest rows"
    by blast
  then show ?case
    using pc by (intro exI [of _ "row # rows"]) simp
qed

text \<open>
  C7, as stated: for every raw payload the keys of each decoded record appear in the
  order of \<open>raw.columns\<close>.  A record is a plain object, which enumerates an array-index
  key before any other key.  Below, the columns are \<open>b\<close> and \<open>1\<close>, in that order, and the
  keys of the decoded record are \<open>1\<close> and \<open>b\<close>.
\<close>

theorem parse_index_key_first_counterexample:
  \<open>map column_name [Column ''b'' ''int4'', Column ''1'' ''int4''] = [''b'', ''1'']
   \<and> parse sample_platform
        (Raw [Column ''b'' ''int4'', Column ''1'' ''int4''] ''8453-9'' [[JNum 2, JNum 3]])
        ''select 2 as b, 3 as "1"'' None
       = Inr (Result ''8453-9'' [[(''1'', JNum 3), (''b'', JNum 2)]])\<close>
  by (simp add: parse_def sample_defs cell_value_def at_index_def row_set_def
      is_array_index_def is_digit_def index_value_def)

text \<open>
  C7, amended: the shape of what \<open>parse\<close> returns.  The result has as many rows as the raw
  payload, and row \<open>i\<close> of the result is the record decoded from row \<open>i\<close> of the payload,
  so the rows keep their order.  When no column name is an array-index key or
  \<open>__proto__\<close>, the keys of every record are the column names in the order of
  \<open>raw.columns\<close>, a name that occurs more than once standing where it occurs first.
\<close>

theorem parse_rows_and_keys:
  assumes "parse P r sql sigs = Inr res"
  shows "length (result_rows res) = length (raw_rows r)
    \<and> (\<exists>sigTypes. signatureTypes P (case sigs of None \<Rightarrow> [] | Some l \<Rightarrow> l) (Sigs Map.empty None)
            = Inr sigTypes
          \<and> (\<forall>i < length (raw_rows r).
                parse_columns P sigTypes sql (extractTableName P sql) (raw_rows r ! i) 0
                  (raw_columns r) ([], True) = Inr (result_rows res ! i)))
    \<and> ((\<forall>c \<in> set (raw_columns r).
            \<not> is_array_index (column_name c) \<and> column_name c \<noteq> ''__proto__'') \<longrightarrow>
          (\<forall>row \<in> set (result_rows res).
             map fst row = first_occurrences (map column_name (raw_columns r)))
          \<and> (distinct (map column_name (raw_columns r)) \<longrightarrow>
               (\<forall>row \<in> set (result_rows res). map fst row = map column_name (raw_columns r))))"
proof -
  from assms obtain sigTypes rows where
    st: "signatureTypes P (case sigs of None \<Rightarrow> [] | Some l \<Rightarrow> l) (Sigs Map.empty None)
          = Inr sigTypes" and
    pr: "parse_rows P sigTypes sql (extractTableName P sql) (raw_columns r) (raw_rows r) [] = Inr rows" and
    res: "res = Result (raw_cursor r) rows"
    by (auto simp: parse_def Let_def split: sum.splits)
  from parse_rows_all2 [OF pr] have
    all2: "list_all2 (\<lambda>row_raw row. parse_columns P sigTypes sql (extractTableName P sql)
             row_raw 0 (raw_columns r) ([], True) = Inr row) (raw_rows r) rows"
    by simp
  have len: "length rows = length (raw_rows r)"
    using all2 by (simp add: list_all2_lengthD)
  have nth: "\<forall>i < length (raw_rows r).
      parse_columns P sigTypes sql (extractTableName P sql) (raw_rows r ! i) 0 (raw_columns r)
        ([], True) = Inr (rows ! i)"
    using all2 by (simp add: list_all2_conv_all_nth)
  have keys: "map fst row = first_occurrences (map column_name (raw_columns r))"
    if "row \<in> set rows"
      and names: "\<forall>c \<in> set (raw_columns r).
        \<not> is_array_index (column_name c) \<and> column_name c \<noteq> ''__proto__''"
    for row
  proof -
    from that(1) obtain i where "i < length rows" and "rows ! i = row"
      by (auto simp: in_set_conv_nth)
    then have "parse_columns P sigTypes sql (extractTableName P sql) (raw_rows r ! i) 0
        (raw_columns r) ([], True) = Inr row"
      using nth len by auto
    from parse_columns_keys [OF this names] show ?thesis
      by simp
  qed
  show ?thesis
    using st len nth keys res by (auto simp: first_occurrences_distinct)
qed

theorem parse_rows_and_keys_witness:
  "parse sample_platform sample_raw sample_query (Some [sample_signature])
     = Inr (Result ''8453-9''
         [[(''from'', JStr ''0xab''), (''value'', JBigInt 12), (''note'', JStr ''first'')],
          [(''from'', JStr ''0xcd''), (''value'', JBigInt 7), (''note'', JNull)]])
   \<and> length (raw_rows sample_raw) = 2
   \<and> map column_name (raw_columns sample_raw) = [''from'', ''value'', ''note'']
   \<and> \<not> is_array_index ''from'' \<and> \<not> is_array_index ''value'' \<and> \<not> is_array_index ''note''"
proof -
  have run: "parse sample_platform sample_raw sample_query (Some [sample_signature])
     = Inr (Result ''8453-9''
         [[(''from'', JStr ''0xab''), (''value'', JBigInt 12), (''note'', JStr ''first'')],
          [(''from'', JStr ''0xcd''), (''value'', JBigInt 7), (''note'', JNull)]])"
    by (simp add: parse_def sample_defs types_set_def sigs_set_def
        transform_def toLowerCase_def cell_value_def column_type_def read_signatureTypes_def
        read_types_def read_standard_def standardTables_def standardColumnTypes_def
        Object_prototype_names_def at_index_def row_set_def is_array_index_def
        is_digit_def Number_of_digits_def index_value_def)
  have names: "\<forall>c \<in> set (raw_columns sample_raw).
         \<not> is_array_index (column_name c) \<and> column_name c \<noteq> ''__proto__''"
    by (simp add: sample_raw_def is_array_index_def is_digit_def)
  show ?thesis
    using run names parse_rows_and_keys [OF run]
    by (simp add: sample_raw_def is_array_index_def is_digit_def)
qed

end
